(* ===== verification/Prelude.thy ===== *)
theory Prelude
  imports Main "HOL-Library.Word"
begin

text \<open>
  Shared vocabulary of the development.  JavaScript strings are sequences of
  UTF-16 code units, so a string of the program is a list of 16-bit words; a
  string literal of the source is written \<open>js_str ''...''\<close>, which maps each ASCII
  character to its code unit.  A JavaScript value that may be \<open>null\<close> or
  \<open>undefined\<close> is an \<open>option\<close>, and \<open>js_truthy\<close> is the truthiness test the source
  applies to such a string (\<open>if (qr)\<close>, \<open>x || y\<close>).  Tables of the model that the
  program indexes by a numeric id (requests, sockets, timers) are lists, and the
  lemmas at the end are the list facts their proofs share.
\<close>

type_synonym code_unit = "16 word"
type_synonym js_string = "code_unit list"

definition js_str :: "string \<Rightarrow> js_string" where
  "js_str s = map (\<lambda>c. of_nat (of_char c)) s"

definition js_truthy :: "js_string option \<Rightarrow> bool" where
  "js_truthy v \<longleftrightarrow> (case v of None \<Rightarrow> False | Some s \<Rightarrow> s \<noteq> [])"

named_theorems js_simps "evaluation rules of the JavaScript value helpers"
named_theorems step_simps "characteristic equations of the server steps"

lemma js_truthy_simps [simp, js_simps]:
  "\<not> js_truthy None"
  "js_truthy (Some s) \<longleftrightarrow> s \<noteq> []"
  by (simp_all add: js_truthy_def)

lemma js_str_simps [simp, js_simps]:
  "js_str [] = []"
  "js_str (c # cs) = of_nat (of_char c) # js_str cs"
  by (simp_all add: js_str_def)

lemma js_str_append [simp]: "js_str (xs @ ys) = js_str xs @ js_str ys"
  by (simp add: js_str_def)

lemma length_js_str [simp]: "length (js_str s) = length s"
  by (simp add: js_str_def)

text \<open>Tables indexed by id: an update at one index leaves the others alone.\<close>

lemma nth_append_last [simp]: "(xs @ [x]) ! length xs = x"
  by simp

lemma nth_append_old: "i < length xs \<Longrightarrow> (xs @ ys) ! i = xs ! i"
  by (simp add: nth_append)

text \<open>A bounded prefix of a \<open>takeWhile\<close> is a prefix of the list itself.\<close>

lemma take_takeWhile_prefix:
  "take (length (take n (takeWhile P xs))) xs = take n (takeWhile P xs)"
  by (metis takeWhile_eq_take take_all_iff length_take take_take le_refl)

end
