(* ===== verification/PairingCode.thy ===== *)
theory PairingCode
  imports Prelude
begin

text \<open>
  The two string transformations of the pairing endpoint of \<open>src/index.js\<close>:
  the session identifier \<open>phoneNumber.replace(/[^0-9]/g, '')\<close> (line 96) and the
  display form of the pairing code
  \<open>pairingCode?.match(/.{1,4}/g)?.join('-') || pairingCode\<close> (line 131).
  Without the \<open>u\<close> flag a JavaScript regular expression works on UTF-16 code
  units; \<open>.\<close> matches every code unit except the four line terminators, and a
  global \<open>match\<close> scans left to right, skipping a position where no match starts
  and otherwise taking the longest match (one to four units).  The scan is
  \<open>match_any_1_4\<close>; \<open>chunks4\<close> is the reference "groups of four from the start"
  that the spec describes, and the lemmas show when the two agree, that the
  chunks cover the input, and that the hyphenated form decodes back.
\<close>

section \<open>Definitions\<close>

definition is_line_terminator :: "code_unit \<Rightarrow> bool" where
  "is_line_terminator c \<longleftrightarrow> c = 0x000A \<or> c = 0x000D \<or> c = 0x2028 \<or> c = 0x2029"

definition is_ascii_digit :: "code_unit \<Rightarrow> bool" where
  "is_ascii_digit c \<longleftrightarrow> 0x30 \<le> c \<and> c \<le> 0x39"

text \<open>\<open>s.replace(/[^0-9]/g, '')\<close>: every code unit outside \<open>0-9\<close> is removed.\<close>

definition strip_non_digits :: "js_string \<Rightarrow> js_string" where
  "strip_non_digits s = filter is_ascii_digit s"

text \<open>The matches of \<open>/.{1,4}/g\<close>, in order.\<close>

function match_any_1_4 :: "js_string \<Rightarrow> js_string list" where
  "match_any_1_4 [] = []"
| "match_any_1_4 (c # cs) =
     (if is_line_terminator c then match_any_1_4 cs
      else (let m = take 4 (takeWhile (\<lambda>x. \<not> is_line_terminator x) (c # cs))
            in m # match_any_1_4 (drop (length m) (c # cs))))"
  by pat_completeness auto
termination
  by (relation "measure length") (auto simp: Let_def min_def)

text \<open>\<open>s.match(re)\<close> with a global regular expression is \<open>null\<close> when nothing matches.\<close>

definition js_match_any_1_4 :: "js_string \<Rightarrow> js_string list option" where
  "js_match_any_1_4 s = (let ms = match_any_1_4 s in if ms = [] then None else Some ms)"

definition hyphen :: code_unit where
  "hyphen = 0x2D"

text \<open>\<open>arr.join('-')\<close>.\<close>

fun js_join_hyphen :: "js_string list \<Rightarrow> js_string" where
  "js_join_hyphen [] = []"
| "js_join_hyphen [m] = m"
| "js_join_hyphen (m # m' # ms) = m @ hyphen # js_join_hyphen (m' # ms)"

text \<open>
  \<open>pairingCode?.match(/.{1,4}/g)?.join('-') || pairingCode\<close>: optional chaining
  yields \<open>undefined\<close> for a \<open>null\<close>/\<open>undefined\<close> code or a \<open>null\<close> match; the
  \<open>||\<close> falls back to the raw code when the joined string is not truthy.
\<close>

definition format_pairing_code :: "js_string option \<Rightarrow> js_string option" where
  "format_pairing_code pc =
     (let joined = (case pc of
                      None \<Rightarrow> None
                    | Some s \<Rightarrow> (case js_match_any_1_4 s of
                                  None \<Rightarrow> None
                                | Some ms \<Rightarrow> Some (js_join_hyphen ms)))
      in if js_truthy joined then joined else pc)"

text \<open>Reference: consecutive groups of four from the start, the last one shorter.\<close>

function chunks4 :: "'a list \<Rightarrow> 'a list list" where
  "chunks4 [] = []"
| "chunks4 (x # xs) = take 4 (x # xs) # chunks4 (drop 4 (x # xs))"
  by pat_completeness auto
termination
  by (relation "measure length") auto

text \<open>Splitting a string at the hyphens, the inverse of \<open>js_join_hyphen\<close>.\<close>

fun split_hyphen :: "js_string \<Rightarrow> js_string list" where
  "split_hyphen [] = [[]]"
| "split_hyphen (c # cs) =
     (if c = hyphen then [] # split_hyphen cs
      else (case split_hyphen cs of g # gs \<Rightarrow> (c # g) # gs | [] \<Rightarrow> [[c]]))"

section \<open>Lemmas\<close>

abbreviation lt_free :: "js_string \<Rightarrow> bool" where
  "lt_free s \<equiv> list_all (\<lambda>c. \<not> is_line_terminator c) s"

lemma take4_takeWhile_lt_free:
  "lt_free s \<Longrightarrow> take 4 (takeWhile (\<lambda>x. \<not> is_line_terminator x) s) = take 4 s"
  by (subst takeWhile_eq_all_conv[THEN iffD2]) (auto simp: list_all_iff)

lemma match_any_1_4_lt_free:
  "lt_free s \<Longrightarrow> match_any_1_4 s = chunks4 s"
proof (induction s rule: chunks4.induct)
  case 1
  then show ?case by simp
next
  case (2 x xs)
  have "lt_free (drop 4 (x # xs))"
    using "2.prems" by (simp add: list_all_iff) (meson in_set_dropD)
  with "2.IH" have IH: "match_any_1_4 (drop 4 (x # xs)) = chunks4 (drop 4 (x # xs))" .
  from "2.prems" have nolt: "\<not> is_line_terminator x" by simp
  have tw: "take 4 (takeWhile (\<lambda>x. \<not> is_line_terminator x) (x # xs)) = take 4 (x # xs)"
    using "2.prems" by (rule take4_takeWhile_lt_free)
  have "drop (length (take 4 (x # xs))) (x # xs) = drop 4 (x # xs)"
    by (simp add: min_def)
  with IH nolt tw show ?case
    by (simp only: match_any_1_4.simps(2) Let_def if_False chunks4.simps(2))
qed

lemma chunks4_nonempty: "g \<in> set (chunks4 xs) \<Longrightarrow> g \<noteq> [] \<and> length g \<le> 4"
  by (induction xs rule: chunks4.induct) auto

lemma concat_chunks4 [simp]: "concat (chunks4 xs) = xs"
  by (induction xs rule: chunks4.induct) auto

lemma chunks4_Nil_iff [simp]: "chunks4 xs = [] \<longleftrightarrow> xs = []"
  by (cases xs) auto

lemma concat_match_any_1_4:
  "concat (match_any_1_4 s) = filter (\<lambda>c. \<not> is_line_terminator c) s"
proof (induction s rule: match_any_1_4.induct)
  case 1
  then show ?case by simp
next
  case (2 c cs)
  let ?P = "\<lambda>x. \<not> is_line_terminator x"
  show ?case
  proof (cases "is_line_terminator c")
    case True
    with "2.IH"(1) show ?thesis by simp
  next
    case False
    let ?m = "take 4 (takeWhile ?P (c # cs))"
    have IH: "concat (match_any_1_4 (drop (length ?m) (c # cs))) =
              filter ?P (drop (length ?m) (c # cs))"
      using "2.IH"(2) False by simp
    have pre: "take (length ?m) (c # cs) = ?m"
      by (rule take_takeWhile_prefix)
    have "filter ?P ?m = ?m"
      by (metis (no_types, lifting) filter_True in_set_takeD set_takeWhileD)
    then have "?m @ filter ?P (drop (length ?m) (c # cs)) = filter ?P (c # cs)"
      using pre by (metis append_take_drop_id filter_append)
    with IH False show ?thesis by (simp add: Let_def)
  qed
qed

lemma length_chunks4: "length (chunks4 xs) = (length xs + 3) div 4"
proof (induction xs rule: chunks4.induct)
  case 1 then show ?case by simp
next
  case (2 x xs)
  then show ?case by (cases "length xs < 3") auto
qed

lemma set_chunks4: "g \<in> set (chunks4 xs) \<Longrightarrow> set g \<subseteq> set xs"
  by (induction xs rule: chunks4.induct) (auto dest: in_set_takeD in_set_dropD)

lemma set_match_any_1_4:
  "m \<in> set (match_any_1_4 s) \<Longrightarrow> m \<noteq> [] \<and> length m \<le> 4 \<and> lt_free m"
proof (induction s rule: match_any_1_4.induct)
  case 1
  then show ?case by simp
next
  case (2 c cs)
  let ?P = "\<lambda>x. \<not> is_line_terminator x"
  let ?m = "take 4 (takeWhile ?P (c # cs))"
  show ?case
  proof (cases "is_line_terminator c")
    case True
    with "2.prems" have "m \<in> set (match_any_1_4 cs)" by simp
    with True show ?thesis by (rule "2.IH"(1))
  next
    case False
    with "2.prems" have "m = ?m \<or> m \<in> set (match_any_1_4 (drop (length ?m) (c # cs)))"
      by (simp add: Let_def)
    then show ?thesis
    proof
      assume m: "m = ?m"
      have "lt_free ?m"
        unfolding list_all_iff by (blast dest: in_set_takeD set_takeWhileD)
      with m False show ?thesis by simp
    next
      assume "m \<in> set (match_any_1_4 (drop (length ?m) (c # cs)))"
      with False show ?thesis using "2.IH"(2) by blast
    qed
  qed
qed

lemma split_hyphen_free: "hyphen \<notin> set g \<Longrightarrow> split_hyphen g = [g]"
  by (induction g) auto

lemma split_hyphen_append: "hyphen \<notin> set g \<Longrightarrow> split_hyphen (g @ hyphen # r) = g # split_hyphen r"
proof (induction g)
  case Nil then show ?case by simp
next
  case (Cons c g)
  then show ?case by (cases "split_hyphen (g @ hyphen # r)") auto
qed

lemma split_join_hyphen:
  "gs \<noteq> [] \<Longrightarrow> (\<forall>g\<in>set gs. hyphen \<notin> set g) \<Longrightarrow> split_hyphen (js_join_hyphen gs) = gs"
  by (induction gs rule: js_join_hyphen.induct) (auto simp: split_hyphen_free split_hyphen_append)

lemma filter_join_hyphen:
  "filter (\<lambda>c. c \<noteq> hyphen) (js_join_hyphen gs) = concat (map (filter (\<lambda>c. c \<noteq> hyphen)) gs)"
  by (induction gs rule: js_join_hyphen.induct) auto

lemma length_join_hyphen:
  "length (js_join_hyphen gs) = sum_list (map length gs) + (length gs - 1)"
  by (induction gs rule: js_join_hyphen.induct) auto

lemma sum_list_length_chunks4 [simp]: "sum_list (map length (chunks4 xs)) = length xs"
  by (metis concat_chunks4 length_concat)

lemma format_pairing_code_lt_free:
  assumes "lt_free s" and "s \<noteq> []"
  shows "format_pairing_code (Some s) = Some (js_join_hyphen (chunks4 s))"
proof -
  have m: "match_any_1_4 s = chunks4 s" using assms(1) by (rule match_any_1_4_lt_free)
  have ne: "js_join_hyphen (chunks4 s) \<noteq> []"
    using assms(2) length_join_hyphen[of "chunks4 s"] by auto
  with m assms(2) show ?thesis
    by (simp add: format_pairing_code_def js_match_any_1_4_def)
qed

text \<open>Joining the groups gives the code back exactly when it is a single group.\<close>

lemma join_chunks4_raw_iff:
  assumes "xs \<noteq> []"
  shows "js_join_hyphen (chunks4 xs) = xs \<longleftrightarrow> length xs \<le> 4"
proof
  assume eq: "js_join_hyphen (chunks4 xs) = xs"
  have "length (js_join_hyphen (chunks4 xs)) = length xs + ((length xs + 3) div 4 - 1)"
    by (simp add: length_join_hyphen length_chunks4)
  with eq show "length xs \<le> 4" by simp
next
  assume "length xs \<le> 4"
  with assms have "chunks4 xs = [xs]" by (cases xs) simp_all
  then show "js_join_hyphen (chunks4 xs) = xs" by simp
qed

section \<open>Properties\<close>

text \<open>
  C23: Every match of \<open>/.{1,4}/g\<close> is one to four code units without a line
  terminator, and the matches together are the input with its line terminators
  removed: the scan loses nothing else and never overlaps.
\<close>

theorem match_any_1_4_chunks:
  "concat (match_any_1_4 s) = filter (\<lambda>c. \<not> is_line_terminator c) s \<and>
   (\<forall>m\<in>set (match_any_1_4 s). m \<noteq> [] \<and> length m \<le> 4 \<and> lt_free m)"
  using concat_match_any_1_4 set_match_any_1_4 by blast

theorem match_any_1_4_chunks_witness:
  "match_any_1_4 [0x41, 0x0A, 0x42, 0x43, 0x44, 0x45, 0x46] = [[0x41], [0x42, 0x43, 0x44, 0x45], [0x46]] \<and>
   concat (match_any_1_4 [0x41, 0x0A, 0x42, 0x43, 0x44, 0x45, 0x46]) =
     [0x41, 0x42, 0x43, 0x44, 0x45, 0x46] \<and>
   list_all (\<lambda>m. m \<noteq> [] \<and> length m \<le> 4 \<and> lt_free m)
     (match_any_1_4 [0x41, 0x0A, 0x42, 0x43, 0x44, 0x45, 0x46])"
  using match_any_1_4_chunks [of "[0x41, 0x0A, 0x42, 0x43, 0x44, 0x45, 0x46]"]
  by (simp add: is_line_terminator_def list_all_iff)

text \<open>
  C20: On a code without line terminators the formatted code is the groups of four from
  the start, joined with hyphens (the optimised regex scan equals the reference
  grouping).
\<close>

theorem format_pairing_code_groups:
  assumes "lt_free s" and "s \<noteq> []"
  shows "format_pairing_code (Some s) = Some (js_join_hyphen (chunks4 s))"
  using assms by (rule format_pairing_code_lt_free)

theorem format_pairing_code_groups_witness:
  "lt_free (js_str ''K7PQ2ZXA'') \<and> js_str ''K7PQ2ZXA'' \<noteq> [] \<and>
   format_pairing_code (Some (js_str ''K7PQ2ZXA'')) = Some (js_join_hyphen (chunks4 (js_str ''K7PQ2ZXA'')))"
proof -
  have h: "lt_free (js_str ''K7PQ2ZXA'')" "js_str ''K7PQ2ZXA'' \<noteq> []"
    by (simp_all add: is_line_terminator_def)
  show ?thesis using h format_pairing_code_groups [OF h] by simp
qed

text \<open>
  C21: Decoding the formatted code: splitting it at the hyphens gives the groups, and
  removing the hyphens gives the raw code back, for any non-empty code without
  line terminators or hyphens of its own.
\<close>

theorem format_pairing_code_roundtrip:
  assumes "lt_free s" and "hyphen \<notin> set s" and "s \<noteq> []"
  shows "\<exists>f. format_pairing_code (Some s) = Some f \<and>
             split_hyphen f = chunks4 s \<and> filter (\<lambda>c. c \<noteq> hyphen) f = s"
proof -
  have hf: "\<forall>g\<in>set (chunks4 s). hyphen \<notin> set g"
    using assms(2) set_chunks4 by blast
  have "map (filter (\<lambda>c. c \<noteq> hyphen)) (chunks4 s) = chunks4 s"
    using hf by (intro map_idI) (fastforce simp: filter_id_conv)
  then have "filter (\<lambda>c. c \<noteq> hyphen) (js_join_hyphen (chunks4 s)) = s"
    by (simp add: filter_join_hyphen)
  moreover have "split_hyphen (js_join_hyphen (chunks4 s)) = chunks4 s"
    using assms(3) hf by (simp add: split_join_hyphen)
  ultimately show ?thesis
    using format_pairing_code_lt_free[OF assms(1) assms(3)] by blast
qed

theorem format_pairing_code_roundtrip_witness:
  "lt_free (js_str ''ABCDE'') \<and> hyphen \<notin> set (js_str ''ABCDE'') \<and> js_str ''ABCDE'' \<noteq> [] \<and>
   (\<exists>f. format_pairing_code (Some (js_str ''ABCDE'')) = Some f \<and>
        split_hyphen f = chunks4 (js_str ''ABCDE'') \<and> filter (\<lambda>c. c \<noteq> hyphen) f = js_str ''ABCDE'')"
proof -
  have h: "lt_free (js_str ''ABCDE'')" "hyphen \<notin> set (js_str ''ABCDE'')" "js_str ''ABCDE'' \<noteq> []"
    by (simp_all add: is_line_terminator_def hyphen_def)
  show ?thesis using h format_pairing_code_roundtrip [OF h] by blast
qed

text \<open>C22: One hyphen is inserted per full group of four that is followed by more code.\<close>

theorem format_pairing_code_length:
  assumes "lt_free s" and "s \<noteq> []"
    and "format_pairing_code (Some s) = Some f"
  shows "length f = length s + (length s - 1) div 4"
  using format_pairing_code_lt_free[OF assms(1,2)] assms(3) length_join_hyphen[of "chunks4 s"]
  by (auto simp: length_chunks4)

theorem format_pairing_code_length_witness:
  "lt_free (js_str ''ABCDEFGHI'') \<and> js_str ''ABCDEFGHI'' \<noteq> [] \<and>
   format_pairing_code (Some (js_str ''ABCDEFGHI'')) = Some (js_str ''ABCD-EFGH-I'') \<and>
   length (js_str ''ABCD-EFGH-I'') = length (js_str ''ABCDEFGHI'') + (length (js_str ''ABCDEFGHI'') - 1) div 4"
proof -
  have h: "lt_free (js_str ''ABCDEFGHI'')" "js_str ''ABCDEFGHI'' \<noteq> []"
    "format_pairing_code (Some (js_str ''ABCDEFGHI'')) = Some (js_str ''ABCD-EFGH-I'')"
    by (simp_all add: is_line_terminator_def format_pairing_code_def js_match_any_1_4_def hyphen_def)
  show ?thesis using h format_pairing_code_length [OF h] by blast
qed

text \<open>
  C24: The fallbacks of the expression: a \<open>null\<close> code stays \<open>null\<close>, and a code with no
  match (empty, or only line terminators) is returned unchanged.
\<close>

theorem format_pairing_code_fallback:
  "format_pairing_code None = None \<and>
   (match_any_1_4 s = [] \<longrightarrow> format_pairing_code (Some s) = Some s)"
  by (simp add: format_pairing_code_def js_match_any_1_4_def)

theorem format_pairing_code_fallback_witness:
  "format_pairing_code None = None \<and> match_any_1_4 [0x0A, 0x0D] = [] \<and>
   format_pairing_code (Some [0x0A, 0x0D]) = Some [0x0A, 0x0D]"
proof -
  have h: "match_any_1_4 [0x0A, 0x0D] = []" by (simp add: is_line_terminator_def)
  show ?thesis using h format_pairing_code_fallback [of "[0x0A, 0x0D]"] by blast
qed

end
