(* ===== verification/Emitter.thy ===== *)
theory Emitter
  imports Prelude
begin

text \<open>
  The event emitter of a protocol-client socket (\<open>bot.ev\<close> / \<open>sock.ev\<close>).  The
  library forwards \<open>on\<close> and \<open>removeAllListeners\<close> to a Node.js \<open>EventEmitter\<close>:
  listeners are kept in registration order, \<open>on\<close> appends,
  \<open>removeAllListeners(name)\<close> drops every listener of that event name and keeps
  the others, and \<open>emit(name, v)\<close> calls a copy of the listener array taken
  before the first call, so a listener that removes listeners does not stop the
  ones already in the copy.  The emitter is generic in the listener type; the
  server theories instantiate it with the closures of the source.
\<close>

datatype ev_name = CredsUpdate | ConnectionUpdate | MessagesUpsert

type_synonym 'l emitter = "(ev_name \<times> 'l) list"

definition ev_on :: "ev_name \<Rightarrow> 'l \<Rightarrow> 'l emitter \<Rightarrow> 'l emitter" where
  "ev_on e l em = em @ [(e, l)]"

definition ev_remove_all :: "ev_name \<Rightarrow> 'l emitter \<Rightarrow> 'l emitter" where
  "ev_remove_all e em = filter (\<lambda>(e', _). e' \<noteq> e) em"

text \<open>The array that \<open>emit(e, ...)\<close> copies and then calls in order.\<close>

definition ev_listeners :: "ev_name \<Rightarrow> 'l emitter \<Rightarrow> 'l list" where
  "ev_listeners e em = map snd (filter (\<lambda>(e', _). e' = e) em)"

text \<open>\<open>emit\<close>: each listener of the copy is called on the state the previous one left.\<close>

definition ev_emit :: "('l \<Rightarrow> 's \<Rightarrow> 's) \<Rightarrow> 'l list \<Rightarrow> 's \<Rightarrow> 's" where
  "ev_emit call ls s = fold call ls s"

lemma ev_listeners_on [simp]:
  "ev_listeners e (ev_on e' l em) = ev_listeners e em @ (if e' = e then [l] else [])"
  by (simp add: ev_listeners_def ev_on_def)

lemma ev_listeners_remove_all [simp]:
  "ev_listeners e (ev_remove_all e' em) = (if e = e' then [] else ev_listeners e em)"
  by (induction em) (auto simp: ev_listeners_def ev_remove_all_def)

lemma ev_listeners_simps [simp]:
  "ev_listeners e [] = []"
  "ev_listeners e ((e', l) # em) = (if e' = e then l # ev_listeners e em else ev_listeners e em)"
  by (simp_all add: ev_listeners_def)

lemma ev_remove_all_simps [simp]:
  "ev_remove_all e [] = []"
  "ev_remove_all e ((e', l) # em) = (if e' = e then ev_remove_all e em else (e', l) # ev_remove_all e em)"
  by (simp_all add: ev_remove_all_def)

lemma ev_on_simps [simp]: "ev_on e l em = em @ [(e, l)]"
  by (simp add: ev_on_def)

lemma ev_remove_all_append [simp]:
  "ev_remove_all e (xs @ ys) = ev_remove_all e xs @ ev_remove_all e ys"
  by (simp add: ev_remove_all_def)

lemma ev_listeners_append [simp]:
  "ev_listeners e (xs @ ys) = ev_listeners e xs @ ev_listeners e ys"
  by (simp add: ev_listeners_def)

lemma ev_emit_simps [simp]:
  "ev_emit call [] s = s"
  "ev_emit call (l # ls) s = ev_emit call ls (call l s)"
  by (simp_all add: ev_emit_def)

end
