(* ===== verification/IndexServer.thy ===== *)
theory IndexServer
  imports PairingCode Emitter
begin

text \<open>
  The web server of \<open>src/index.js\<close> as a state machine.  Its state is the
  module-level \<open>activeSessions\<close> map, the listener lists of the sockets it has
  created, the pending \<open>setTimeout\<close> timers, the point at which each in-flight
  request handler is suspended, and the clock.  Everything the program awaits from
  outside (the credential store and version lookup inside
  \<open>createWhatsAppSession\<close>, socket events, \<open>requestPairingCode\<close>,
  \<open>qrcode.toDataURL\<close>, the passing of time) is an action of the environment, and
  \<open>step\<close> runs the program's reaction to one action up to its next suspension:
  one macrotask, followed by the promise continuations it queued
  (\<open>run_microtasks\<close>).  Handlers of different requests interleave only at these
  suspension points, as on Node's single-threaded event loop.
\<close>

section \<open>Values\<close>

datatype conn_state = Connecting | Open | Close

text \<open>A \<open>connection.update\<close> event: \<open>connection\<close>, \<open>lastDisconnect?.error?.output?.statusCode\<close>, \<open>qr\<close>.\<close>

record conn_update =
  connection :: "conn_state option"
  status_code :: "int option"
  qr :: "js_string option"

text \<open>Why a request's promise was rejected (the \<open>error\<close> caught at lines 134 and 180).\<close>

datatype failure =
    SessionSetupFailed
  | PairConnectTimeout
  | ConnectionClosed "int option"
  | PairingRequestFailed
  | QrTimeout

text \<open>\<open>req.query.number\<close>: absent, a string, or an array when the key is repeated.\<close>

datatype query_value = QAbsent | QString js_string | QArray "js_string list"

datatype route = GetPair query_value | GetQr

text \<open>The JSON bodies the handlers send.\<close>

datatype body =
    ErrPhoneRequired
  | ErrPairSessionActive
  | ErrQrSessionActive
  | ErrFailure failure
  | CodeBody "js_string option"
  | QrBody js_string

datatype response = Response nat body

text \<open>
  The closures registered on a socket: \<open>saveCreds\<close> (line 49), the session's own
  \<open>connection.update\<close> handler (lines 52-69, over \<open>sessionId\<close>), the message log
  (lines 72-77), the pairing wait of a \<open>/pair\<close> request (lines 113-125, over the
  request, \<open>sessionId\<close>, \<open>bot\<close> and \<open>timeout\<close>) and the QR wait of a \<open>/qr\<close>
  request (lines 161-169).
\<close>

datatype listener =
    SaveCreds
  | SessionConnectionUpdate js_string
  | MessagesLog
  | PairConnectionWait nat js_string nat nat
  | QrWait nat nat nat

datatype timer_callback = PairTimeoutCb nat js_string nat | QrTimeoutCb nat nat

record timer =
  deadline :: nat
  callback :: timer_callback

text \<open>
  Where a request handler is suspended.  \<open>PairSettled\<close>/\<open>QrSettled\<close> is a
  promise that has settled and whose continuation is queued as a microtask;
  \<open>QrRendering\<close> is the QR listener suspended at \<open>await qrcode.toDataURL(qr)\<close>;
  \<open>QrHung\<close> is a request whose promise can no longer settle; \<open>HandlerRejected\<close>
  is a handler that threw before its \<open>try\<close>.
\<close>

datatype req_state =
    PairCreating js_string
  | PairWaiting js_string nat nat
  | PairSettled js_string nat "failure + unit"
  | PairRequesting js_string nat
  | QrCreating
  | QrWaiting nat nat
  | QrRendering nat js_string
  | QrSettled "failure + js_string"
  | QrHung
  | HandlerRejected
  | Done response

record server =
  active_sessions :: "js_string \<rightharpoonup> nat"
  sockets :: "listener emitter list"
  timers :: "timer option list"
  requests :: "req_state list"
  clock :: nat

definition init_server :: server where
  "init_server = \<lparr>active_sessions = Map.empty, sockets = [], timers = [], requests = [], clock = 0\<rparr>"

definition pair_timeout_ms :: nat where
  "pair_timeout_ms = 30000"

definition qr_timeout_ms :: nat where
  "qr_timeout_ms = 60000"

definition qr_session_id :: js_string where
  "qr_session_id = js_str ''qr-login-session''"

section \<open>Primitive effects\<close>

definition new_request :: "req_state \<Rightarrow> server \<Rightarrow> server" where
  "new_request st s = s\<lparr>requests := requests s @ [st]\<rparr>"

definition set_request :: "nat \<Rightarrow> req_state \<Rightarrow> server \<Rightarrow> server" where
  "set_request r st s = s\<lparr>requests := (requests s)[r := st]\<rparr>"

definition respond :: "nat \<Rightarrow> response \<Rightarrow> server \<Rightarrow> server" where
  "respond r resp s = set_request r (Done resp) s"

text \<open>\<open>activeSessions.delete(sessionId)\<close>\<close>

definition delete_session :: "js_string \<Rightarrow> server \<Rightarrow> server" where
  "delete_session sid s = s\<lparr>active_sessions := (active_sessions s)(sid := None)\<rparr>"

text \<open>\<open>clearTimeout(t)\<close>; clearing an unknown id does nothing.\<close>

definition clear_timeout :: "nat \<Rightarrow> server \<Rightarrow> server" where
  "clear_timeout t s = s\<lparr>timers := (timers s)[t := None]\<rparr>"

text \<open>\<open>setTimeout(cb, ms)\<close> returns the new timer's id.\<close>

definition set_timeout :: "nat \<Rightarrow> timer_callback \<Rightarrow> server \<Rightarrow> nat \<times> server" where
  "set_timeout ms cb s =
     (length (timers s),
      s\<lparr>timers := timers s @ [Some \<lparr>deadline = clock s + ms, callback = cb\<rparr>]\<rparr>)"

definition add_listener :: "nat \<Rightarrow> ev_name \<Rightarrow> listener \<Rightarrow> server \<Rightarrow> server" where
  "add_listener k e l s = s\<lparr>sockets := (sockets s)[k := ev_on e l (sockets s ! k)]\<rparr>"

definition remove_all_listeners :: "nat \<Rightarrow> ev_name \<Rightarrow> server \<Rightarrow> server" where
  "remove_all_listeners k e s = s\<lparr>sockets := (sockets s)[k := ev_remove_all e (sockets s ! k)]\<rparr>"

section \<open>The handlers\<close>

text \<open>
  \<open>createWhatsAppSession(sessionId)\<close> after its two awaits (lines 29-79): a new
  socket, registered in \<open>activeSessions\<close>, with its three listeners.
\<close>

definition create_whatsapp_session :: "js_string \<Rightarrow> server \<Rightarrow> nat \<times> server" where
  "create_whatsapp_session sid s =
     (let sk = length (sockets s);
          s1 = s\<lparr>sockets := sockets s @ [[]],
                 active_sessions := (active_sessions s)(sid \<mapsto> sk)\<rparr>;
          s2 = add_listener sk CredsUpdate SaveCreds s1;
          s3 = add_listener sk ConnectionUpdate (SessionConnectionUpdate sid) s2;
          s4 = add_listener sk MessagesUpsert MessagesLog s3
      in (sk, s4))"

text \<open>\<open>GET /pair\<close> up to \<open>await createWhatsAppSession\<close> (lines 90-103).\<close>

definition pair_request :: "query_value \<Rightarrow> server \<Rightarrow> server" where
  "pair_request q s =
     (case q of
        QAbsent \<Rightarrow> new_request (Done (Response 400 ErrPhoneRequired)) s
      | QString n \<Rightarrow>
          (if n = [] then new_request (Done (Response 400 ErrPhoneRequired)) s
           else (let sid = strip_non_digits n in
                 if active_sessions s sid \<noteq> None
                 then new_request (Done (Response 400 ErrPairSessionActive)) s
                 else new_request (PairCreating sid) s))
      | QArray _ \<Rightarrow> new_request HandlerRejected s)"

text \<open>The \<open>catch\<close> of \<open>/pair\<close> (lines 134-137).\<close>

definition pair_fail :: "nat \<Rightarrow> js_string \<Rightarrow> failure \<Rightarrow> server \<Rightarrow> server" where
  "pair_fail r sid f s = respond r (Response 500 (ErrFailure f)) (delete_session sid s)"

text \<open>
  \<open>/pair\<close> once \<open>createWhatsAppSession\<close> has returned: the promise executor arms
  the 30 s timer and registers the pairing wait, then the handler awaits the
  promise (lines 103-128).
\<close>

definition pair_session_ready :: "nat \<Rightarrow> js_string \<Rightarrow> server \<Rightarrow> server" where
  "pair_session_ready r sid s =
     (let (sk, s1) = create_whatsapp_session sid s;
          (t, s2) = set_timeout pair_timeout_ms (PairTimeoutCb r sid sk) s1;
          s3 = add_listener sk ConnectionUpdate (PairConnectionWait r sid sk t) s2
      in set_request r (PairWaiting sid sk t) s3)"

text \<open>\<open>GET /qr\<close> up to \<open>await createWhatsAppSession\<close> (lines 142-151).\<close>

definition qr_request :: "server \<Rightarrow> server" where
  "qr_request s =
     (if active_sessions s qr_session_id \<noteq> None
      then new_request (Done (Response 400 ErrQrSessionActive)) s
      else new_request QrCreating s)"

text \<open>The \<open>catch\<close> of \<open>/qr\<close> (lines 180-183).\<close>

definition qr_fail :: "nat \<Rightarrow> failure \<Rightarrow> server \<Rightarrow> server" where
  "qr_fail r f s = respond r (Response 500 (ErrFailure f)) (delete_session qr_session_id s)"

text \<open>\<open>/qr\<close> once the session exists: 60 s timer, QR wait, await (lines 151-172).\<close>

definition qr_session_ready :: "nat \<Rightarrow> server \<Rightarrow> server" where
  "qr_session_ready r s =
     (let (sk, s1) = create_whatsapp_session qr_session_id s;
          (t, s2) = set_timeout qr_timeout_ms (QrTimeoutCb r sk) s1;
          s3 = add_listener sk ConnectionUpdate (QrWait r sk t) s2
      in set_request r (QrWaiting sk t) s3)"

text \<open>
  \<open>resolve\<close>/\<open>reject\<close> of the request's promise: only the first call settles it,
  later calls do nothing.
\<close>

definition settle_pair :: "nat \<Rightarrow> failure + unit \<Rightarrow> server \<Rightarrow> server" where
  "settle_pair r v s =
     (if r < length (requests s) then
        (case requests s ! r of
           PairWaiting sid sk t \<Rightarrow> set_request r (PairSettled sid sk v) s
         | _ \<Rightarrow> s)
      else s)"

definition settle_qr :: "nat \<Rightarrow> failure + js_string \<Rightarrow> server \<Rightarrow> server" where
  "settle_qr r v s =
     (if r < length (requests s) then
        (case requests s ! r of
           QrWaiting sk t \<Rightarrow> set_request r (QrSettled v) s
         | QrRendering sk q \<Rightarrow> set_request r (QrSettled v) s
         | _ \<Rightarrow> s)
      else s)"

text \<open>
  The QR listener after \<open>clearTimeout\<close> and \<open>removeAllListeners\<close>: it suspends at
  \<open>await qrcode.toDataURL(qr)\<close> (line 166).
\<close>

definition begin_render :: "nat \<Rightarrow> nat \<Rightarrow> js_string \<Rightarrow> server \<Rightarrow> server" where
  "begin_render r sk q s =
     (if r < length (requests s) then
        (case requests s ! r of
           QrWaiting sk' t \<Rightarrow> set_request r (QrRendering sk q) s
         | _ \<Rightarrow> s)
      else s)"

text \<open>
  The session's own \<open>connection.update\<close> handler (lines 52-69): on \<open>close\<close> the
  session is dropped from \<open>activeSessions\<close> whatever the status code (the
  \<open>loggedOut\<close> test has an empty body, and the folder removal is commented out);
  \<open>open\<close> only logs.
\<close>

definition session_connection_update :: "js_string \<Rightarrow> conn_update \<Rightarrow> server \<Rightarrow> server" where
  "session_connection_update sid u s =
     (if connection u = Some Close then delete_session sid s else s)"

text \<open>The pairing wait of \<open>/pair\<close> (lines 113-125).\<close>

definition pair_connection_wait ::
  "nat \<Rightarrow> js_string \<Rightarrow> nat \<Rightarrow> nat \<Rightarrow> conn_update \<Rightarrow> server \<Rightarrow> server" where
  "pair_connection_wait r sid sk t u s =
     (if connection u = Some Open then
        settle_pair r (Inr ())
          (remove_all_listeners sk ConnectionUpdate (clear_timeout t s))
      else if connection u = Some Close then
        settle_pair r (Inl (ConnectionClosed (status_code u)))
          (delete_session sid (remove_all_listeners sk ConnectionUpdate (clear_timeout t s)))
      else s)"

text \<open>The QR wait of \<open>/qr\<close> up to its \<open>await qrcode.toDataURL(qr)\<close> (lines 161-166).\<close>

definition qr_wait :: "nat \<Rightarrow> nat \<Rightarrow> nat \<Rightarrow> conn_update \<Rightarrow> server \<Rightarrow> server" where
  "qr_wait r sk t u s =
     (if js_truthy (qr u) then
        begin_render r sk (the (qr u))
          (remove_all_listeners sk ConnectionUpdate (clear_timeout t s))
      else s)"

text \<open>Calling one registered closure with a \<open>connection.update\<close> event.\<close>

fun connection_listener :: "conn_update \<Rightarrow> listener \<Rightarrow> server \<Rightarrow> server" where
  "connection_listener u (SessionConnectionUpdate sid) s = session_connection_update sid u s"
| "connection_listener u (PairConnectionWait r sid sk t) s = pair_connection_wait r sid sk t u s"
| "connection_listener u (QrWait r sk t) s = qr_wait r sk t u s"
| "connection_listener u SaveCreds s = s"
| "connection_listener u MessagesLog s = s"

text \<open>The timeout callback of \<open>/pair\<close> (lines 107-111).\<close>

definition pair_timeout_callback :: "nat \<Rightarrow> js_string \<Rightarrow> nat \<Rightarrow> server \<Rightarrow> server" where
  "pair_timeout_callback r sid sk s =
     settle_pair r (Inl PairConnectTimeout)
       (delete_session sid (remove_all_listeners sk ConnectionUpdate s))"

text \<open>The timeout callback of \<open>/qr\<close> (lines 155-159).\<close>

definition qr_timeout_callback :: "nat \<Rightarrow> nat \<Rightarrow> server \<Rightarrow> server" where
  "qr_timeout_callback r sk s =
     settle_qr r (Inl QrTimeout)
       (delete_session qr_session_id (remove_all_listeners sk ConnectionUpdate s))"

fun run_timer_callback :: "timer_callback \<Rightarrow> server \<Rightarrow> server" where
  "run_timer_callback (PairTimeoutCb r sid sk) s = pair_timeout_callback r sid sk s"
| "run_timer_callback (QrTimeoutCb r sk) s = qr_timeout_callback r sk s"

text \<open>
  \<open>/pair\<close> after \<open>await connectionPromise\<close> (lines 128-137): on resolution it calls
  \<open>requestPairingCode\<close> and suspends again; on rejection it runs the \<open>catch\<close>.
\<close>

definition resume_pair :: "nat \<Rightarrow> js_string \<Rightarrow> nat \<Rightarrow> failure + unit \<Rightarrow> server \<Rightarrow> server" where
  "resume_pair r sid sk v s =
     (case v of
        Inr _ \<Rightarrow> set_request r (PairRequesting sid sk) s
      | Inl f \<Rightarrow> pair_fail r sid f s)"

text \<open>\<open>/qr\<close> after \<open>await qrPromise\<close> (lines 172-183).\<close>

definition resume_qr :: "nat \<Rightarrow> failure + js_string \<Rightarrow> server \<Rightarrow> server" where
  "resume_qr r v s =
     (case v of
        Inr url \<Rightarrow> respond r (Response 200 (QrBody url)) s
      | Inl f \<Rightarrow> qr_fail r f s)"

text \<open>The queued continuation of request \<open>r\<close>, if its promise has settled.\<close>

definition resume :: "nat \<Rightarrow> server \<Rightarrow> server" where
  "resume r s =
     (case requests s ! r of
        PairSettled sid sk v \<Rightarrow> resume_pair r sid sk v s
      | QrSettled v \<Rightarrow> resume_qr r v s
      | _ \<Rightarrow> s)"

definition run_microtasks :: "server \<Rightarrow> server" where
  "run_microtasks s = fold resume [0..<length (requests s)] s"

text \<open>\<open>requestPairingCode\<close> settles (lines 130-137).\<close>

definition pairing_code_result :: "nat \<Rightarrow> unit + js_string option \<Rightarrow> server \<Rightarrow> server option" where
  "pairing_code_result r res s =
     (if r < length (requests s) then
        (case requests s ! r of
           PairRequesting sid sk \<Rightarrow>
             (case res of
                Inr code \<Rightarrow> Some (respond r (Response 200 (CodeBody (format_pairing_code code))) s)
              | Inl _ \<Rightarrow> Some (pair_fail r sid PairingRequestFailed s))
         | _ \<Rightarrow> None)
      else None)"

text \<open>
  \<open>qrcode.toDataURL\<close> settles inside the QR listener (lines 166-167).  When it
  rejects, the rejection escapes the \<open>async\<close> listener, the timer is already
  cleared, and \<open>qrPromise\<close> never settles.
\<close>

definition qr_render_result :: "nat \<Rightarrow> unit + js_string \<Rightarrow> server \<Rightarrow> server option" where
  "qr_render_result r res s =
     (if r < length (requests s) then
        (case requests s ! r of
           QrRendering sk q \<Rightarrow>
             (case res of
                Inr url \<Rightarrow> Some (run_microtasks (settle_qr r (Inr url) s))
              | Inl _ \<Rightarrow> Some (set_request r QrHung s))
         | _ \<Rightarrow> None)
      else None)"

section \<open>Steps\<close>

datatype action =
    HttpGet route
  | SessionCreated nat bool
  | ConnectionEvent nat conn_update
  | TimePasses nat
  | TimerFires nat
  | PairingCodeResult nat "unit + js_string option"
  | QrRenderResult nat "unit + js_string"

definition session_created :: "nat \<Rightarrow> bool \<Rightarrow> server \<Rightarrow> server option" where
  "session_created r ok s =
     (if r < length (requests s) then
        (case requests s ! r of
           PairCreating sid \<Rightarrow>
             Some (if ok then pair_session_ready r sid s else pair_fail r sid SessionSetupFailed s)
         | QrCreating \<Rightarrow>
             Some (if ok then qr_session_ready r s else qr_fail r SessionSetupFailed s)
         | _ \<Rightarrow> None)
      else None)"

definition connection_event :: "nat \<Rightarrow> conn_update \<Rightarrow> server \<Rightarrow> server option" where
  "connection_event k u s =
     (if k < length (sockets s) then
        Some (run_microtasks
               (ev_emit (connection_listener u) (ev_listeners ConnectionUpdate (sockets s ! k)) s))
      else None)"

definition timer_fires :: "nat \<Rightarrow> server \<Rightarrow> server option" where
  "timer_fires t s =
     (if t < length (timers s) then
        (case timers s ! t of
           Some tm \<Rightarrow>
             (if deadline tm \<le> clock s
              then Some (run_microtasks (run_timer_callback (callback tm) (clear_timeout t s)))
              else None)
         | None \<Rightarrow> None)
      else None)"

fun step :: "server \<Rightarrow> action \<Rightarrow> server option" where
  "step s (HttpGet (GetPair q)) = Some (pair_request q s)"
| "step s (HttpGet GetQr) = Some (qr_request s)"
| "step s (SessionCreated r ok) = session_created r ok s"
| "step s (ConnectionEvent k u) = connection_event k u s"
| "step s (TimePasses d) = Some (s\<lparr>clock := clock s + d\<rparr>)"
| "step s (TimerFires t) = timer_fires t s"
| "step s (PairingCodeResult r res) = pairing_code_result r res s"
| "step s (QrRenderResult r res) = qr_render_result r res s"

fun run :: "server \<Rightarrow> action list \<Rightarrow> server option" where
  "run s [] = Some s"
| "run s (a # as) = (case step s a of None \<Rightarrow> None | Some s' \<Rightarrow> run s' as)"

inductive reachable :: "server \<Rightarrow> bool" where
  init: "reachable init_server"
| step: "reachable s \<Longrightarrow> step s a = Some s' \<Longrightarrow> reachable s'"

section \<open>Evaluation\<close>

text \<open>The definitions a concrete run unfolds to, for evaluation by \<open>simp\<close>.\<close>

lemmas server_defs = init_server_def new_request_def set_request_def respond_def
  delete_session_def clear_timeout_def set_timeout_def add_listener_def remove_all_listeners_def
  create_whatsapp_session_def pair_request_def pair_fail_def pair_session_ready_def
  qr_request_def qr_fail_def qr_session_ready_def settle_pair_def settle_qr_def begin_render_def
  session_connection_update_def pair_connection_wait_def qr_wait_def pair_timeout_callback_def
  qr_timeout_callback_def resume_pair_def resume_qr_def resume_def run_microtasks_def
  pairing_code_result_def qr_render_result_def session_created_def connection_event_def
  timer_fires_def pair_timeout_ms_def qr_timeout_ms_def

section \<open>Properties of the handlers\<close>

text \<open>
  C13: \<open>GET /pair\<close> with a number whose digits are already a key of
  \<open>activeSessions\<close> is answered 400 at once, and nothing else changes: the
  registered socket is not replaced, no socket or timer is created.
\<close>

theorem pair_duplicate_rejected:
  assumes "n \<noteq> []" and "active_sessions s (strip_non_digits n) \<noteq> None"
  shows "step s (HttpGet (GetPair (QString n))) =
           Some (s\<lparr>requests := requests s @ [Done (Response 400 ErrPairSessionActive)]\<rparr>)"
  using assms by (simp add: pair_request_def new_request_def)

theorem pair_duplicate_rejected_witness:
  "js_str ''+62 812'' \<noteq> [] \<and>
   active_sessions (init_server\<lparr>active_sessions := [js_str ''62812'' \<mapsto> 0]\<rparr>)
     (strip_non_digits (js_str ''+62 812'')) \<noteq> None \<and>
   step (init_server\<lparr>active_sessions := [js_str ''62812'' \<mapsto> 0]\<rparr>)
        (HttpGet (GetPair (QString (js_str ''+62 812'')))) =
     Some (init_server\<lparr>active_sessions := [js_str ''62812'' \<mapsto> 0],
                       requests := [Done (Response 400 ErrPairSessionActive)]\<rparr>)"
proof -
  let ?s = "init_server\<lparr>active_sessions := [js_str ''62812'' \<mapsto> 0]\<rparr>"
  have h: "js_str ''+62 812'' \<noteq> []" "active_sessions ?s (strip_non_digits (js_str ''+62 812'')) \<noteq> None"
    by (simp_all add: strip_non_digits_def is_ascii_digit_def)
  show ?thesis using h pair_duplicate_rejected [OF h] by (simp add: init_server_def)
qed

text \<open>
  C18: \<open>GET /pair\<close> without a \<open>number\<close>, or with an empty one, is answered 400 and
  changes nothing else; with an array-valued \<open>number\<close> (the key repeated) the
  handler throws at \<open>phoneNumber.replace\<close>, before its \<open>try\<close>, and no answer is
  recorded.
\<close>

theorem pair_bad_number:
  "step s (HttpGet (GetPair QAbsent)) =
     Some (s\<lparr>requests := requests s @ [Done (Response 400 ErrPhoneRequired)]\<rparr>) \<and>
   step s (HttpGet (GetPair (QString []))) =
     Some (s\<lparr>requests := requests s @ [Done (Response 400 ErrPhoneRequired)]\<rparr>) \<and>
   step s (HttpGet (GetPair (QArray ns))) =
     Some (s\<lparr>requests := requests s @ [HandlerRejected]\<rparr>)"
  by (simp add: pair_request_def new_request_def)

end
