(* ===== verification/IndexResponses.thy ===== *)
theory IndexResponses
  imports IndexServer
begin

text \<open>
  Every request of \<open>src/index.js\<close> is answered at most once: once a handler has
  sent its response (\<open>res.json\<close>, the request state \<open>Done\<close>), no later step of
  the server changes it; and a request that is stuck (\<open>QrHung\<close>,
  \<open>HandlerRejected\<close>) stays stuck, so it is never answered.  A failed QR
  rendering is one way into \<open>QrHung\<close>, and every run from there keeps it.  \<open>keeps_final s s'\<close>
  says that \<open>s'\<close> keeps every final request of \<open>s\<close> as it was; one lemma per
  effect and per kind of step shows that each step keeps it.
\<close>


text \<open>
  The states a request never leaves: answered, or stuck for good (a QR listener
  whose rendering failed, a handler that threw before its \<open>try\<close>).
\<close>

fun is_final :: "req_state \<Rightarrow> bool" where
  "is_final (Done _) = True"
| "is_final QrHung = True"
| "is_final HandlerRejected = True"
| "is_final _ = False"

definition keeps_final :: "server \<Rightarrow> server \<Rightarrow> bool" where
  "keeps_final s s' \<longleftrightarrow> length (requests s) \<le> length (requests s') \<and>
     (\<forall>r<length (requests s). is_final (requests s ! r) \<longrightarrow> requests s' ! r = requests s ! r)"

lemma requests_effects [simp]:
  "requests (delete_session sid s) = requests s"
  "requests (clear_timeout t s) = requests s"
  "requests (remove_all_listeners k e s) = requests s"
  "requests (add_listener k e l s) = requests s"
  "requests (snd (set_timeout ms cb s)) = requests s"
  "requests (snd (create_whatsapp_session sid s)) = requests s"
  by (simp_all add: delete_session_def clear_timeout_def remove_all_listeners_def add_listener_def
      set_timeout_def create_whatsapp_session_def Let_def)

lemma keeps_final_refl [intro]: "keeps_final s s"
  by (simp add: keeps_final_def)

lemma keeps_final_trans [trans]: "keeps_final s1 s2 \<Longrightarrow> keeps_final s2 s3 \<Longrightarrow> keeps_final s1 s3"
  unfolding keeps_final_def
proof (intro conjI allI impI)
  assume a: "length (requests s1) \<le> length (requests s2) \<and>
      (\<forall>r<length (requests s1). is_final (requests s1 ! r) \<longrightarrow> requests s2 ! r = requests s1 ! r)"
    and b: "length (requests s2) \<le> length (requests s3) \<and>
      (\<forall>r<length (requests s2). is_final (requests s2 ! r) \<longrightarrow> requests s3 ! r = requests s2 ! r)"
  then show "length (requests s1) \<le> length (requests s3)" by simp
  fix r assume r: "r < length (requests s1)" and d: "is_final (requests s1 ! r)"
  with a have eq: "requests s2 ! r = requests s1 ! r" by simp
  from r a have "r < length (requests s2)" by simp
  with b eq d show "requests s3 ! r = requests s1 ! r" by simp
qed

lemma keeps_final_same: "requests s' = requests s \<Longrightarrow> keeps_final s s'"
  by (simp add: keeps_final_def)

lemma keeps_final_update:
  "\<not> is_final (requests s ! r) \<Longrightarrow> requests s' = (requests s)[r := st] \<Longrightarrow> keeps_final s s'"
  by (cases "r < length (requests s)") (auto simp: keeps_final_def nth_list_update)

lemma keeps_final_set_request:
  "\<not> is_final (requests s ! r) \<Longrightarrow> keeps_final s (set_request r st s)"
  by (rule keeps_final_update) (simp_all add: set_request_def)

lemma keeps_final_from:
  "keeps_final t s' \<Longrightarrow> requests t = requests s \<Longrightarrow> keeps_final s s'"
  by (simp add: keeps_final_def)

lemma keeps_final_new_request [intro]: "keeps_final s (new_request st s)"
  by (simp add: keeps_final_def new_request_def nth_append)

lemma keeps_final_fold:
  "(\<And>x s. keeps_final s (f x s)) \<Longrightarrow> keeps_final s (fold f xs s)"
proof (induction xs arbitrary: s)
  case Nil then show ?case by auto
next
  case (Cons x xs)
  then show ?case by (metis fold_simps(2) keeps_final_trans)
qed

lemma keeps_final_effects [intro]:
  "keeps_final s (delete_session sid s)"
  "keeps_final s (clear_timeout t s)"
  "keeps_final s (remove_all_listeners k e s)"
  by (simp_all add: keeps_final_same)

lemma keeps_final_pair_fail:
  "\<not> is_final (requests s ! r) \<Longrightarrow> keeps_final s (pair_fail r sid f s)"
  unfolding pair_fail_def respond_def
  by (metis keeps_final_set_request keeps_final_trans keeps_final_effects(1) requests_effects(1))

lemma keeps_final_qr_fail:
  "\<not> is_final (requests s ! r) \<Longrightarrow> keeps_final s (qr_fail r f s)"
  unfolding qr_fail_def respond_def
  by (metis keeps_final_set_request keeps_final_trans keeps_final_effects(1) requests_effects(1))

lemma keeps_final_settle_pair [intro]: "keeps_final s (settle_pair r v s)"
  by (auto simp: settle_pair_def intro: keeps_final_set_request split: req_state.split)

lemma keeps_final_settle_qr [intro]: "keeps_final s (settle_qr r v s)"
  by (auto simp: settle_qr_def intro: keeps_final_set_request split: req_state.split)

lemma keeps_final_begin_render [intro]: "keeps_final s (begin_render r k q s)"
  by (auto simp: begin_render_def intro: keeps_final_set_request split: req_state.split)

lemma keeps_final_connection_listener: "keeps_final s (connection_listener u l s)"
proof (cases l)
  case (SessionConnectionUpdate sid)
  then show ?thesis by (simp add: session_connection_update_def keeps_final_same)
next
  case (PairConnectionWait r sid k t)
  then show ?thesis
    by (auto simp: pair_connection_wait_def intro: keeps_final_from[OF keeps_final_settle_pair] keeps_final_same)
next
  case (QrWait r k t)
  then show ?thesis
    by (auto simp: qr_wait_def intro: keeps_final_from[OF keeps_final_begin_render] keeps_final_same)
qed auto

lemma keeps_final_timer_callback: "keeps_final s (run_timer_callback cb s)"
  by (cases cb)
     (auto simp: pair_timeout_callback_def qr_timeout_callback_def
           intro: keeps_final_from[OF keeps_final_settle_pair] keeps_final_from[OF keeps_final_settle_qr])

lemma keeps_final_resume: "keeps_final s (resume r s)"
  by (auto simp: resume_def resume_pair_def resume_qr_def respond_def
      intro: keeps_final_set_request keeps_final_pair_fail keeps_final_qr_fail
      split: req_state.split sum.split)

lemma keeps_final_run_microtasks [intro]: "keeps_final s (run_microtasks s)"
  unfolding run_microtasks_def by (rule keeps_final_fold) (rule keeps_final_resume)

lemma requests_session_ready [simp]:
  "requests (pair_session_ready r sid s) =
     (requests s)[r := PairWaiting sid (length (sockets s)) (length (timers s))]"
  "requests (qr_session_ready r s) =
     (requests s)[r := QrWaiting (length (sockets s)) (length (timers s))]"
  by (simp_all add: pair_session_ready_def qr_session_ready_def create_whatsapp_session_def
      set_timeout_def add_listener_def set_request_def Let_def)

lemma keeps_final_session_ready:
  "\<not> is_final (requests s ! r) \<Longrightarrow> keeps_final s (pair_session_ready r sid s)"
  "\<not> is_final (requests s ! r) \<Longrightarrow> keeps_final s (qr_session_ready r s)"
  by (rule keeps_final_update, assumption, simp)+

lemma keeps_final_session_created:
  "session_created r ok s = Some s' \<Longrightarrow> keeps_final s s'"
  by (auto simp: session_created_def intro: keeps_final_session_ready keeps_final_pair_fail keeps_final_qr_fail
      split: req_state.splits if_splits)

lemma keeps_final_then_microtasks:
  "keeps_final s t \<Longrightarrow> keeps_final s (run_microtasks t)"
  using keeps_final_trans keeps_final_run_microtasks by blast

lemma keeps_final_connection_event:
  assumes "connection_event k u s = Some s'"
  shows "keeps_final s s'"
proof -
  from assms have s': "s' = run_microtasks
      (ev_emit (connection_listener u) (ev_listeners ConnectionUpdate (sockets s ! k)) s)"
    by (simp add: connection_event_def split: if_splits)
  have "keeps_final s (ev_emit (connection_listener u) (ev_listeners ConnectionUpdate (sockets s ! k)) s)"
    unfolding ev_emit_def by (rule keeps_final_fold) (rule keeps_final_connection_listener)
  then show ?thesis unfolding s' by (rule keeps_final_then_microtasks)
qed

lemma keeps_final_timer_fires:
  assumes "timer_fires t s = Some s'"
  shows "keeps_final s s'"
proof -
  from assms obtain tm :: "timer" where
    s': "s' = run_microtasks (run_timer_callback (callback tm) (clear_timeout t s))"
    by (auto simp: timer_fires_def split: if_splits option.splits)
  have "keeps_final s (run_timer_callback (callback tm) (clear_timeout t s))"
    by (rule keeps_final_from[OF keeps_final_timer_callback]) simp
  then show ?thesis unfolding s' by (rule keeps_final_then_microtasks)
qed

lemma keeps_final_pairing_code_result:
  "pairing_code_result r res s = Some s' \<Longrightarrow> keeps_final s s'"
  by (auto simp: pairing_code_result_def respond_def
      intro: keeps_final_set_request keeps_final_pair_fail split: req_state.splits sum.splits if_splits)

lemma keeps_final_qr_render_result:
  "qr_render_result r res s = Some s' \<Longrightarrow> keeps_final s s'"
  by (auto simp: qr_render_result_def
      intro: keeps_final_set_request keeps_final_then_microtasks[OF keeps_final_settle_qr]
      split: req_state.splits sum.splits if_splits)

lemma keeps_final_step:
  assumes "step s a = Some s'"
  shows "keeps_final s s'"
  using assms
proof (cases a)
  case (HttpGet rt)
  with assms show ?thesis
    by (cases rt) (auto simp: pair_request_def qr_request_def Let_def split: query_value.splits)
qed (use assms in \<open>auto simp: keeps_final_same keeps_final_session_created keeps_final_connection_event
       keeps_final_timer_fires keeps_final_pairing_code_result keeps_final_qr_render_result\<close>)


text \<open>
  C1: A response, once sent, is final: whatever the environment does next (a new
  request, a socket event, a timer, a library call settling), a request that has
  been answered keeps exactly the response it was given.
\<close>

theorem response_final:
  assumes "step s a = Some s'" and "r < length (requests s)" and "requests s ! r = Done resp"
  shows "requests s' ! r = Done resp"
  using keeps_final_step [OF assms(1)] assms(2,3) by (simp add: keeps_final_def)

theorem response_final_witness:
  "step (new_request (Done (Response 400 ErrPhoneRequired)) init_server) (HttpGet GetQr) =
     Some (qr_request (new_request (Done (Response 400 ErrPhoneRequired)) init_server)) \<and>
   0 < length (requests (new_request (Done (Response 400 ErrPhoneRequired)) init_server)) \<and>
   requests (new_request (Done (Response 400 ErrPhoneRequired)) init_server) ! 0 =
     Done (Response 400 ErrPhoneRequired) \<and>
   requests (qr_request (new_request (Done (Response 400 ErrPhoneRequired)) init_server)) ! 0 =
     Done (Response 400 ErrPhoneRequired)"
proof -
  let ?s = "new_request (Done (Response 400 ErrPhoneRequired)) init_server"
  have h: "step ?s (HttpGet GetQr) = Some (qr_request ?s)" "0 < length (requests ?s)"
    "requests ?s ! 0 = Done (Response 400 ErrPhoneRequired)"
    by (simp_all add: new_request_def init_server_def)
  show ?thesis using h response_final [OF h] by blast
qed



end
