(* ===== verification/IndexInvariant.thy ===== *)
theory IndexInvariant
  imports IndexResponses
begin

text \<open>
  The invariant of the \<open>src/index.js\<close> server and the races it decides.
  \<open>server_inv\<close> ties each request suspended in its wait (\<open>PairWaiting\<close>,
  \<open>QrWaiting\<close>) to exactly one socket, whose listeners are the three of
  \<open>createWhatsAppSession\<close> plus the request's own wait, and to exactly one pending
  timer, whose callback names the request; every other socket has lost all its
  \<open>connection.update\<close> listeners (\<open>stripped_listeners\<close>); no timer is pending for
  a request that no longer waits; and no promise is settled with its continuation
  still queued.  The frame lemmas (\<open>server_inv_set_idle\<close>,
  \<open>server_inv_new_request\<close>, \<open>server_inv_release\<close>, \<open>server_inv_arm\<close>) cover the
  four shapes of state change the handlers make; under the invariant each event on
  a waiting request computes to a closed form (\<open>connection_event_pair_waiter\<close>,
  \<open>connection_event_qr_waiter\<close>, \<open>timer_fires_pair_waiter\<close>,
  \<open>timer_fires_qr_waiter\<close>), and \<open>server_inv_step\<close> combines them.  The claims
  at the end are the invariant over all reachable states and the races of the
  spec: \<open>open\<close> against the timer, \<open>close\<close>, the timeout, the QR string and the
  rendered QR.  They also show that, in every reachable state, a socket nobody
  waits on ignores its events, which is why a paired session stays registered.
\<close>

section \<open>The invariant\<close>

definition base_listeners :: "js_string \<Rightarrow> listener emitter" where
  "base_listeners sid =
     [(CredsUpdate, SaveCreds), (ConnectionUpdate, SessionConnectionUpdate sid), (MessagesUpsert, MessagesLog)]"

definition stripped_listeners :: "listener emitter" where
  "stripped_listeners = [(CredsUpdate, SaveCreds), (MessagesUpsert, MessagesLog)]"

fun waiting_socket :: "req_state \<Rightarrow> nat option" where
  "waiting_socket (PairWaiting sid k t) = Some k"
| "waiting_socket (QrWaiting k t) = Some k"
| "waiting_socket _ = None"

fun waiting_timer :: "req_state \<Rightarrow> nat option" where
  "waiting_timer (PairWaiting sid k t) = Some t"
| "waiting_timer (QrWaiting k t) = Some t"
| "waiting_timer _ = None"

fun settled :: "req_state \<Rightarrow> bool" where
  "settled (PairSettled _ _ _) = True"
| "settled (QrSettled _) = True"
| "settled _ = False"

definition timer_is :: "server \<Rightarrow> nat \<Rightarrow> timer_callback \<Rightarrow> bool" where
  "timer_is s t cb \<longleftrightarrow> t < length (timers s) \<and>
     (case timers s ! t of Some tm \<Rightarrow> callback tm = cb | None \<Rightarrow> False)"

definition req_ok :: "server \<Rightarrow> nat \<Rightarrow> bool" where
  "req_ok s r \<longleftrightarrow>
     (case requests s ! r of
        PairWaiting sid k t \<Rightarrow> k < length (sockets s) \<and>
          sockets s ! k = base_listeners sid @ [(ConnectionUpdate, PairConnectionWait r sid k t)] \<and>
          timer_is s t (PairTimeoutCb r sid k)
      | QrWaiting k t \<Rightarrow> k < length (sockets s) \<and>
          sockets s ! k = base_listeners qr_session_id @ [(ConnectionUpdate, QrWait r k t)] \<and>
          timer_is s t (QrTimeoutCb r k)
      | st \<Rightarrow> \<not> settled st)"

definition sock_ok :: "server \<Rightarrow> nat \<Rightarrow> bool" where
  "sock_ok s k \<longleftrightarrow> sockets s ! k = stripped_listeners \<or>
     list_ex (\<lambda>r. waiting_socket (requests s ! r) = Some k) [0..<length (requests s)]"

definition timer_ok :: "server \<Rightarrow> nat \<Rightarrow> bool" where
  "timer_ok s t \<longleftrightarrow>
     (case timers s ! t of
        None \<Rightarrow> True
      | Some tm \<Rightarrow>
          (case callback tm of
             PairTimeoutCb r sid k \<Rightarrow> r < length (requests s) \<and> requests s ! r = PairWaiting sid k t
           | QrTimeoutCb r k \<Rightarrow> r < length (requests s) \<and> requests s ! r = QrWaiting k t))"

text \<open>
  The shape every settle path leaves: request \<open>r\<close> leaves its wait for state
  \<open>st\<close>, its socket \<open>k\<close> keeps no \<open>connection.update\<close> listener and its timer
  \<open>t\<close> is cleared.
\<close>

definition released :: "server \<Rightarrow> nat \<Rightarrow> nat \<Rightarrow> nat \<Rightarrow> req_state \<Rightarrow> server" where
  "released s r k t st =
     s\<lparr>sockets := (sockets s)[k := stripped_listeners], timers := (timers s)[t := None],
       requests := (requests s)[r := st]\<rparr>"

definition server_inv :: "server \<Rightarrow> bool" where
  "server_inv s \<longleftrightarrow>
     list_all (req_ok s) [0..<length (requests s)] \<and>
     list_all (sock_ok s) [0..<length (sockets s)] \<and>
     list_all (timer_ok s) [0..<length (timers s)]"

lemma server_inv_iff:
  "server_inv s \<longleftrightarrow>
     (\<forall>r<length (requests s). req_ok s r) \<and> (\<forall>k<length (sockets s). sock_ok s k) \<and>
     (\<forall>t<length (timers s). timer_ok s t)"
  by (auto simp: server_inv_def list_all_iff)

lemma sock_ok_iff:
  "sock_ok s k \<longleftrightarrow> sockets s ! k = stripped_listeners \<or>
     (\<exists>r<length (requests s). waiting_socket (requests s ! r) = Some k)"
  by (auto simp: sock_ok_def list_ex_iff)

lemma server_inv_init: "server_inv init_server"
  by (simp add: server_inv_def init_server_def)

lemma server_inv_example:
  "server_inv (the (run init_server [HttpGet (GetPair (QString (js_str ''123''))), SessionCreated 0 True]))"
  by (simp add: server_defs server_inv_def req_ok_def sock_ok_def timer_ok_def timer_is_def
      base_listeners_def strip_non_digits_def is_ascii_digit_def)


lemma req_ok_idle:
  "waiting_socket (requests s ! r) = None \<Longrightarrow> req_ok s r \<longleftrightarrow> \<not> settled (requests s ! r)"
  by (cases "requests s ! r") (auto simp: req_ok_def)

lemma req_ok_cong:
  "requests s' ! r = requests s ! r \<Longrightarrow> sockets s' = sockets s \<Longrightarrow> timers s' = timers s \<Longrightarrow>
   req_ok s' r = req_ok s r"
  by (cases "requests s ! r") (simp_all add: req_ok_def timer_is_def)

lemma waiting_socket_Some:
  "waiting_socket st = Some k \<longleftrightarrow> (\<exists>sid t. st = PairWaiting sid k t) \<or> (\<exists>t. st = QrWaiting k t)"
  by (cases st) auto

text \<open>Under the invariant, a socket and a timer have at most one waiting request.\<close>

lemma waiter_unique_socket:
  assumes "server_inv s" "r < length (requests s)" "r' < length (requests s)"
    and "waiting_socket (requests s ! r) = Some k" "waiting_socket (requests s ! r') = Some k"
  shows "r = r'"
proof -
  from assms(1,2) have "req_ok s r" by (simp add: server_inv_iff)
  moreover from assms(1,3) have "req_ok s r'" by (simp add: server_inv_iff)
  ultimately show ?thesis using assms(4,5)
    by (auto simp: req_ok_def waiting_socket_Some base_listeners_def)
qed

lemma waiter_unique_timer:
  assumes "server_inv s" "r < length (requests s)" "r' < length (requests s)"
    and "timer_is s t cb" "timer_is s t cb'"
    and "cb = PairTimeoutCb r sid k \<or> cb = QrTimeoutCb r k"
    and "cb' = PairTimeoutCb r' sid' k' \<or> cb' = QrTimeoutCb r' k'"
  shows "r = r'"
  using assms(4-7) by (auto simp: timer_is_def split: option.splits)


lemma sock_ok_cong:
  "sockets s' = sockets s \<Longrightarrow> requests s' = requests s \<Longrightarrow> sock_ok s' k = sock_ok s k"
  by (simp add: sock_ok_def)

lemma timer_ok_cong:
  "timers s' = timers s \<Longrightarrow> requests s' = requests s \<Longrightarrow> timer_ok s' t = timer_ok s t"
  by (simp add: timer_ok_def split: option.split timer_callback.split)

lemma server_inv_cong:
  "sockets s' = sockets s \<Longrightarrow> timers s' = timers s \<Longrightarrow> requests s' = requests s \<Longrightarrow>
   server_inv s' = server_inv s"
proof -
  assume eqs: "sockets s' = sockets s" "timers s' = timers s" "requests s' = requests s"
  have "req_ok s' = req_ok s" by (rule ext, rule req_ok_cong) (simp_all add: eqs)
  moreover have "sock_ok s' = sock_ok s" by (rule ext, rule sock_ok_cong) (simp_all add: eqs)
  moreover have "timer_ok s' = timer_ok s" by (rule ext, rule timer_ok_cong) (simp_all add: eqs)
  ultimately show ?thesis by (simp add: server_inv_def eqs)
qed

text \<open>Updating a request that waits on nothing leaves every waiting request where it was.\<close>

lemma waiting_other:
  "waiting_socket (requests s ! r) = None \<Longrightarrow> waiting_socket (requests s ! r') = Some k \<Longrightarrow>
   (requests s)[r := st] ! r' = requests s ! r'"
  by (cases "r = r'") auto

lemma sock_ok_set_idle:
  assumes "sock_ok s k" and old: "waiting_socket (requests s ! r) = None"
  shows "sock_ok (s\<lparr>requests := (requests s)[r := st]\<rparr>) k"
  using assms(1) unfolding sock_ok_iff
proof (elim disjE exE conjE)
  assume "sockets s ! k = stripped_listeners"
  then show "sockets (s\<lparr>requests := (requests s)[r := st]\<rparr>) ! k = stripped_listeners \<or>
    (\<exists>r'<length (requests (s\<lparr>requests := (requests s)[r := st]\<rparr>)).
       waiting_socket (requests (s\<lparr>requests := (requests s)[r := st]\<rparr>) ! r') = Some k)" by simp
next
  fix r' assume "r' < length (requests s)" "waiting_socket (requests s ! r') = Some k"
  then have "r' < length (requests s)" by simp
  moreover from old \<open>waiting_socket (requests s ! r') = Some k\<close>
  have "waiting_socket ((requests s)[r := st] ! r') = Some k"
    by (simp add: waiting_other)
  ultimately show "sockets (s\<lparr>requests := (requests s)[r := st]\<rparr>) ! k = stripped_listeners \<or>
    (\<exists>r'<length (requests (s\<lparr>requests := (requests s)[r := st]\<rparr>)).
       waiting_socket (requests (s\<lparr>requests := (requests s)[r := st]\<rparr>) ! r') = Some k)"
    by auto
qed

lemma timer_ok_set_idle:
  assumes "timer_ok s t" and old: "waiting_socket (requests s ! r) = None"
  shows "timer_ok (s\<lparr>requests := (requests s)[r := st]\<rparr>) t"
proof (cases "timers s ! t")
  case None
  then show ?thesis by (simp add: timer_ok_def)
next
  case (Some tm)
  show ?thesis
  proof (cases "callback tm")
    case (PairTimeoutCb r' sid k)
    with assms Some have "r' < length (requests s)" "requests s ! r' = PairWaiting sid k t"
      by (simp_all add: timer_ok_def)
    moreover from this old have "(requests s)[r := st] ! r' = requests s ! r'"
      by (intro waiting_other) simp_all
    ultimately show ?thesis using Some PairTimeoutCb by (simp add: timer_ok_def)
  next
    case (QrTimeoutCb r' k)
    with assms Some have "r' < length (requests s)" "requests s ! r' = QrWaiting k t"
      by (simp_all add: timer_ok_def)
    moreover from this old have "(requests s)[r := st] ! r' = requests s ! r'"
      by (intro waiting_other) simp_all
    ultimately show ?thesis using Some QrTimeoutCb by (simp add: timer_ok_def)
  qed
qed

lemma server_inv_set_idle:
  assumes inv: "server_inv s"
    and old: "waiting_socket (requests s ! r) = None"
    and new: "waiting_socket st = None" "\<not> settled st"
  shows "server_inv (s\<lparr>requests := (requests s)[r := st]\<rparr>)" (is "server_inv ?s")
  unfolding server_inv_iff
proof (intro conjI allI impI)
  fix r' assume r': "r' < length (requests ?s)"
  show "req_ok ?s r'"
  proof (cases "r' = r")
    case True
    with r' new show ?thesis by (simp add: req_ok_idle)
  next
    case False
    then have "req_ok ?s r' = req_ok s r'" by (intro req_ok_cong) simp_all
    with r' inv show ?thesis by (simp add: server_inv_iff)
  qed
next
  fix k assume "k < length (sockets ?s)"
  with inv have "sock_ok s k" by (simp add: server_inv_iff)
  then show "sock_ok ?s k" using old by (rule sock_ok_set_idle)
next
  fix t assume "t < length (timers ?s)"
  with inv have "timer_ok s t" by (simp add: server_inv_iff)
  then show "timer_ok ?s t" using old by (rule timer_ok_set_idle)
qed

text \<open>Extending the request table keeps every old witness in place.\<close>

lemma sock_ok_extend:
  assumes "sock_ok s k" "sockets s' = sockets s" "requests s' = requests s @ xs"
  shows "sock_ok s' k"
  using assms(1) unfolding sock_ok_iff
proof (elim disjE exE conjE)
  assume "sockets s ! k = stripped_listeners"
  with assms(2) show "sockets s' ! k = stripped_listeners \<or>
      (\<exists>r<length (requests s'). waiting_socket (requests s' ! r) = Some k)" by simp
next
  fix r assume r: "r < length (requests s)" and w: "waiting_socket (requests s ! r) = Some k"
  from r assms(3) have "r < length (requests s')" "requests s' ! r = requests s ! r"
    by (simp_all add: nth_append)
  with w show "sockets s' ! k = stripped_listeners \<or>
      (\<exists>r<length (requests s'). waiting_socket (requests s' ! r) = Some k)" by auto
qed

lemma timer_ok_extend:
  assumes "timer_ok s t" "timers s' = timers s" "requests s' = requests s @ xs"
  shows "timer_ok s' t"
proof (cases "timers s ! t")
  case None
  with assms(2) show ?thesis by (simp add: timer_ok_def)
next
  case (Some tm)
  then show ?thesis
    using assms by (cases "callback tm") (simp_all add: timer_ok_def nth_append)
qed

lemma server_inv_new_request:
  assumes inv: "server_inv s" and new: "waiting_socket st = None" "\<not> settled st"
  shows "server_inv (new_request st s)"
  unfolding server_inv_iff
proof (intro conjI allI impI)
  fix r assume r: "r < length (requests (new_request st s))"
  show "req_ok (new_request st s) r"
  proof (cases "r = length (requests s)")
    case True
    with new show ?thesis by (simp add: req_ok_idle new_request_def)
  next
    case False
    with r have r: "r < length (requests s)" by (simp add: new_request_def)
    then have "req_ok (new_request st s) r = req_ok s r"
      by (intro req_ok_cong) (simp_all add: new_request_def nth_append)
    with r inv show ?thesis by (simp add: server_inv_iff)
  qed
next
  fix k assume "k < length (sockets (new_request st s))"
  with inv have "sock_ok s k" by (simp add: server_inv_iff new_request_def)
  then show "sock_ok (new_request st s) k"
    by (rule sock_ok_extend) (simp_all add: new_request_def)
next
  fix t assume "t < length (timers (new_request st s))"
  with inv have "timer_ok s t" by (simp add: server_inv_iff new_request_def)
  then show "timer_ok (new_request st s) t"
    by (rule timer_ok_extend) (simp_all add: new_request_def)
qed

text \<open>What the invariant says about one waiting request.\<close>

lemma req_ok_waiting:
  assumes "req_ok s r" "waiting_socket (requests s ! r) = Some k" "waiting_timer (requests s ! r) = Some t"
  shows "k < length (sockets s) \<and> t < length (timers s) \<and>
    (\<exists>l cb tm. sockets s ! k = base_listeners (case requests s ! r of PairWaiting sid _ _ \<Rightarrow> sid | _ \<Rightarrow> qr_session_id) @ [(ConnectionUpdate, l)] \<and>
       timers s ! t = Some tm \<and> callback tm = cb \<and>
       ((\<exists>sid. l = PairConnectionWait r sid k t \<and> cb = PairTimeoutCb r sid k) \<or>
        (l = QrWait r k t \<and> cb = QrTimeoutCb r k)))"
  using assms by (cases "requests s ! r") (auto simp: req_ok_def timer_is_def split: option.splits)

lemma waiting_distinct:
  assumes inv: "server_inv s" and r: "r < length (requests s)" and r': "r' < length (requests s)"
    and ne: "r' \<noteq> r"
    and w: "waiting_socket (requests s ! r) = Some k" "waiting_timer (requests s ! r) = Some t"
    and w': "waiting_socket (requests s ! r') = Some k'" "waiting_timer (requests s ! r') = Some t'"
  shows "k' \<noteq> k \<and> t' \<noteq> t"
proof -
  from inv r r' have ok: "req_ok s r" "req_ok s r'" by (simp_all add: server_inv_iff)
  have "k' \<noteq> k" using waiter_unique_socket [OF inv r r' w(1)] w'(1) ne by auto
  moreover have "t' \<noteq> t"
  proof
    assume "t' = t"
    with req_ok_waiting [OF ok(1) w] req_ok_waiting [OF ok(2) w'] ne show False by auto
  qed
  ultimately show ?thesis ..
qed

lemma req_ok_release_other:
  assumes inv: "server_inv s" and r: "r < length (requests s)" and r': "r' < length (requests s)"
    and ne: "r' \<noteq> r"
    and w: "waiting_socket (requests s ! r) = Some k" "waiting_timer (requests s ! r) = Some t"
  shows "req_ok (released s r k t st) r' = req_ok s r'"
proof (cases "waiting_socket (requests s ! r')")
  case None
  with ne show ?thesis by (simp add: req_ok_idle released_def)
next
  case (Some k')
  then obtain t' where t': "waiting_timer (requests s ! r') = Some t'"
    by (cases "requests s ! r'") auto
  from waiting_distinct [OF inv r r' ne w Some t'] have "k' \<noteq> k" "t' \<noteq> t" by auto
  with Some t' ne show ?thesis
    by (cases "requests s ! r'") (simp_all add: req_ok_def released_def timer_is_def)
qed

lemma sock_ok_release:
  assumes inv: "server_inv s" and r: "r < length (requests s)"
    and w: "waiting_socket (requests s ! r) = Some k"
    and k'': "k'' < length (sockets s)"
  shows "sock_ok (released s r k t st) k''"
proof (cases "k'' = k")
  case True
  with k'' have "k < length (sockets s)" by simp
  with True show ?thesis by (simp add: sock_ok_iff released_def)
next
  case False
  from inv k'' have "sock_ok s k''" by (simp add: server_inv_iff)
  then show ?thesis
    unfolding sock_ok_iff
  proof (elim disjE exE conjE)
    assume "sockets s ! k'' = stripped_listeners"
    with False show "sockets (released s r k t st) ! k'' = stripped_listeners \<or>
        (\<exists>r'<length (requests (released s r k t st)).
           waiting_socket (requests (released s r k t st) ! r') = Some k'')"
      by (simp add: released_def)
  next
    fix r'' assume "r'' < length (requests s)" "waiting_socket (requests s ! r'') = Some k''"
    moreover from this w False have "r'' \<noteq> r" by auto
    ultimately show "sockets (released s r k t st) ! k'' = stripped_listeners \<or>
        (\<exists>r'<length (requests (released s r k t st)).
           waiting_socket (requests (released s r k t st) ! r') = Some k'')"
      by (auto simp: released_def)
  qed
qed

lemma timer_ok_release:
  assumes inv: "server_inv s" and r: "r < length (requests s)"
    and w: "waiting_timer (requests s ! r) = Some t"
    and t'': "t'' < length (timers s)"
  shows "timer_ok (released s r k t st) t''"
proof (cases "t'' = t")
  case True
  with t'' have "t < length (timers s)" by simp
  with True show ?thesis by (simp add: timer_ok_def released_def)
next
  case False
  from inv t'' have ok: "timer_ok s t''" by (simp add: server_inv_iff)
  show ?thesis
  proof (cases "timers s ! t''")
    case None
    with False show ?thesis by (simp add: timer_ok_def released_def)
  next
    case (Some tm)
    show ?thesis
    proof (cases "callback tm")
      case (PairTimeoutCb r'' sid k')
      with ok Some have "r'' < length (requests s)" "requests s ! r'' = PairWaiting sid k' t''"
        by (simp_all add: timer_ok_def)
      moreover from this w False have "r'' \<noteq> r" by auto
      ultimately show ?thesis using Some PairTimeoutCb False by (simp add: timer_ok_def released_def)
    next
      case (QrTimeoutCb r'' k')
      with ok Some have "r'' < length (requests s)" "requests s ! r'' = QrWaiting k' t''"
        by (simp_all add: timer_ok_def)
      moreover from this w False have "r'' \<noteq> r" by auto
      ultimately show ?thesis using Some QrTimeoutCb False by (simp add: timer_ok_def released_def)
    qed
  qed
qed

lemma server_inv_release:
  assumes inv: "server_inv s" and r: "r < length (requests s)"
    and w: "waiting_socket (requests s ! r) = Some k" "waiting_timer (requests s ! r) = Some t"
    and new: "waiting_socket st = None" "\<not> settled st"
  shows "server_inv (released s r k t st)"
  unfolding server_inv_iff
proof (intro conjI allI impI)
  fix r' assume r': "r' < length (requests (released s r k t st))"
  show "req_ok (released s r k t st) r'"
  proof (cases "r' = r")
    case True
    with r new show ?thesis by (simp add: req_ok_idle released_def)
  next
    case False
    with r' have "r' < length (requests s)" by (simp add: released_def)
    with inv show ?thesis
      using req_ok_release_other [OF inv r _ False w] by (simp add: server_inv_iff)
  qed
next
  fix k'' assume "k'' < length (sockets (released s r k t st))"
  then show "sock_ok (released s r k t st) k''"
    using sock_ok_release [OF inv r w(1)] by (simp add: released_def)
next
  fix t'' assume "t'' < length (timers (released s r k t st))"
  then show "timer_ok (released s r k t st) t''"
    using timer_ok_release [OF inv r w(2)] by (simp add: released_def)
qed

text \<open>The state \<open>pair_session_ready\<close> and \<open>qr_session_ready\<close> leave, field by field.\<close>

lemma pair_session_ready_eq:
  "pair_session_ready r sid s =
     s\<lparr>active_sessions := (active_sessions s)(sid \<mapsto> length (sockets s)),
       sockets := sockets s @
         [base_listeners sid @ [(ConnectionUpdate, PairConnectionWait r sid (length (sockets s)) (length (timers s)))]],
       timers := timers s @
         [Some \<lparr>deadline = clock s + pair_timeout_ms, callback = PairTimeoutCb r sid (length (sockets s))\<rparr>],
       requests := (requests s)[r := PairWaiting sid (length (sockets s)) (length (timers s))]\<rparr>"
  by (simp add: pair_session_ready_def create_whatsapp_session_def set_timeout_def add_listener_def
      set_request_def base_listeners_def Let_def)

lemma qr_session_ready_eq:
  "qr_session_ready r s =
     s\<lparr>active_sessions := (active_sessions s)(qr_session_id \<mapsto> length (sockets s)),
       sockets := sockets s @
         [base_listeners qr_session_id @ [(ConnectionUpdate, QrWait r (length (sockets s)) (length (timers s)))]],
       timers := timers s @
         [Some \<lparr>deadline = clock s + qr_timeout_ms, callback = QrTimeoutCb r (length (sockets s))\<rparr>],
       requests := (requests s)[r := QrWaiting (length (sockets s)) (length (timers s))]\<rparr>"
  by (simp add: qr_session_ready_def create_whatsapp_session_def set_timeout_def add_listener_def
      set_request_def base_listeners_def Let_def)

lemma req_ok_extend_tables:
  assumes "req_ok s r" "sockets s' = sockets s @ xs" "timers s' = timers s @ ys"
    "requests s' ! r = requests s ! r"
  shows "req_ok s' r"
  using assms by (cases "requests s ! r") (auto simp: req_ok_def timer_is_def nth_append)

text \<open>
  Arming a new waiter: request \<open>r\<close>, which waited on nothing, now waits on a new
  socket (its session listener and its wait \<open>l\<close>) and a new timer (callback \<open>cb\<close>).
\<close>

lemma server_inv_arm:
  assumes inv: "server_inv s" and r: "r < length (requests s)"
    and idle: "waiting_socket (requests s ! r) = None"
    and shape: "(st = PairWaiting sid (length (sockets s)) (length (timers s)) \<and>
                 l = PairConnectionWait r sid (length (sockets s)) (length (timers s)) \<and>
                 cb = PairTimeoutCb r sid (length (sockets s))) \<or>
                (st = QrWaiting (length (sockets s)) (length (timers s)) \<and> sid = qr_session_id \<and>
                 l = QrWait r (length (sockets s)) (length (timers s)) \<and>
                 cb = QrTimeoutCb r (length (sockets s)))"
    and s': "sockets s' = sockets s @ [base_listeners sid @ [(ConnectionUpdate, l)]]"
      "timers s' = timers s @ [Some \<lparr>deadline = d, callback = cb\<rparr>]"
      "requests s' = (requests s)[r := st]"
  shows "server_inv s'"
  unfolding server_inv_iff
proof (intro conjI allI impI)
  fix r' assume r': "r' < length (requests s')"
  show "req_ok s' r'"
  proof (cases "r' = r")
    case True
    with r shape s' show ?thesis by (auto simp: req_ok_def timer_is_def nth_append)
  next
    case False
    with r' s' inv have "req_ok s r'" by (simp add: server_inv_iff)
    then show ?thesis by (rule req_ok_extend_tables) (simp_all add: s' not_sym [OF False])
  qed
next
  fix k assume k: "k < length (sockets s')"
  show "sock_ok s' k"
  proof (cases "k = length (sockets s)")
    case True
    with r shape s' show ?thesis by (auto simp: sock_ok_iff intro!: exI [of _ r])
  next
    case False
    with k s' have k: "k < length (sockets s)" by simp
    with inv have "sock_ok s k" by (simp add: server_inv_iff)
    then show ?thesis
      unfolding sock_ok_iff
    proof (elim disjE exE conjE)
      assume "sockets s ! k = stripped_listeners"
      with k s' show "sockets s' ! k = stripped_listeners \<or>
          (\<exists>r<length (requests s'). waiting_socket (requests s' ! r) = Some k)"
        by (simp add: nth_append)
    next
      fix r'' assume "r'' < length (requests s)" "waiting_socket (requests s ! r'') = Some k"
      moreover from this idle have "r'' \<noteq> r" by auto
      ultimately show "sockets s' ! k = stripped_listeners \<or>
          (\<exists>r<length (requests s'). waiting_socket (requests s' ! r) = Some k)"
        using s' by auto
    qed
  qed
next
  fix t assume t: "t < length (timers s')"
  show "timer_ok s' t"
  proof (cases "t = length (timers s)")
    case True
    with r shape s' show ?thesis by (auto simp: timer_ok_def)
  next
    case False
    with t s' have t: "t < length (timers s)" by simp
    with inv have ok: "timer_ok s t" by (simp add: server_inv_iff)
    show ?thesis
    proof (cases "timers s ! t")
      case None
      with t s' show ?thesis by (simp add: timer_ok_def nth_append)
    next
      case (Some tm)
      show ?thesis
      proof (cases "callback tm")
        case (PairTimeoutCb r'' sid' k')
        with ok Some have "r'' < length (requests s)" "requests s ! r'' = PairWaiting sid' k' t"
          by (simp_all add: timer_ok_def)
        moreover from this idle have "r'' \<noteq> r" by auto
        ultimately show ?thesis using t s' Some PairTimeoutCb by (simp add: timer_ok_def nth_append)
      next
        case (QrTimeoutCb r'' k')
        with ok Some have "r'' < length (requests s)" "requests s ! r'' = QrWaiting k' t"
          by (simp_all add: timer_ok_def)
        moreover from this idle have "r'' \<noteq> r" by auto
        ultimately show ?thesis using t s' Some QrTimeoutCb by (simp add: timer_ok_def nth_append)
      qed
    qed
  qed
qed

lemma server_inv_pair_session_ready:
  assumes "server_inv s" "r < length (requests s)" "requests s ! r = PairCreating sid"
  shows "server_inv (pair_session_ready r sid s)"
  unfolding pair_session_ready_eq
  by (rule server_inv_arm [OF assms(1,2), where sid = sid and d = "clock s + pair_timeout_ms"])
     (simp_all add: assms(3))

lemma server_inv_qr_session_ready:
  assumes "server_inv s" "r < length (requests s)" "requests s ! r = QrCreating"
  shows "server_inv (qr_session_ready r s)"
  unfolding qr_session_ready_eq
  by (rule server_inv_arm [OF assms(1,2), where sid = qr_session_id and d = "clock s + qr_timeout_ms"])
     (simp_all add: assms(3))

text \<open>Only the active-session map changes under \<open>activeSessions.delete\<close> and the clock.\<close>

lemma server_inv_delete_session [simp]: "server_inv (delete_session sid s) = server_inv s"
  by (rule server_inv_cong) (simp_all add: delete_session_def)

lemma server_inv_clock [simp]: "server_inv (s\<lparr>clock := c\<rparr>) = server_inv s"
  by (rule server_inv_cong) simp_all

lemma server_inv_respond:
  "server_inv s \<Longrightarrow> waiting_socket (requests s ! r) = None \<Longrightarrow> server_inv (respond r resp s)"
  unfolding respond_def set_request_def by (rule server_inv_set_idle) simp_all

section \<open>The microtask queue under the invariant\<close>

lemma server_inv_unsettled:
  "server_inv s \<Longrightarrow> i < length (requests s) \<Longrightarrow> \<not> settled (requests s ! i)"
  by (cases "requests s ! i") (auto simp: server_inv_iff req_ok_def dest!: spec [of _ i])

lemma resume_unsettled: "\<not> settled (requests s ! r) \<Longrightarrow> resume r s = s"
  by (cases "requests s ! r") (simp_all add: resume_def)

lemma fold_resume_unsettled:
  "list_all (\<lambda>i. \<not> settled (requests s ! i)) is \<Longrightarrow> fold resume is s = s"
  by (induction "is") (simp_all add: resume_unsettled)

text \<open>With no settled promise the microtask queue is empty.\<close>

lemma run_microtasks_inv: "server_inv s \<Longrightarrow> run_microtasks s = s"
  unfolding run_microtasks_def
  by (rule fold_resume_unsettled) (simp add: list_all_iff server_inv_unsettled)

text \<open>The continuation of a settled request only touches that request's slot.\<close>

lemma list_update_nth_same: "xs ! i = x \<Longrightarrow> xs[i := x] = xs"
  by (metis list_update_id)

lemma requests_resume:
  "r < length (requests s) \<Longrightarrow>
   \<exists>st. requests (resume r s) = (requests s)[r := st] \<and> \<not> settled st"
proof (cases "requests s ! r")
  case (PairSettled sid k v)
  then show ?thesis
    by (cases v) (auto simp: resume_def resume_pair_def pair_fail_def respond_def set_request_def
        delete_session_def)
next
  case (QrSettled v)
  then show ?thesis
    by (cases v) (auto simp: resume_def resume_qr_def qr_fail_def respond_def set_request_def
        delete_session_def)
qed (auto simp: resume_def list_update_nth_same intro!: exI [of _ "requests s ! r"])

text \<open>
  One promise settled in a state that otherwise satisfies the invariant: the
  microtask drain runs exactly that request's continuation.
\<close>

lemma run_microtasks_after:
  assumes inv: "server_inv s0" and r: "r < length (requests s0)"
    and s: "requests s = (requests s0)[r := st]"
  shows "run_microtasks s = resume r s"
proof -
  let ?n = "length (requests s)"
  have other: "\<not> settled (requests s ! i)" if "i < ?n" "i \<noteq> r" for i
    using that inv s by (simp add: server_inv_unsettled)
  from r s obtain st' where st': "requests (resume r s) = (requests s)[r := st']" "\<not> settled st'"
    using requests_resume [of r s] by auto
  have "[0..<?n] = [0..<r] @ [r..<?n]"
    using upt_add_eq_append [of 0 r "?n - r"] r s by simp
  then have split: "[0..<?n] = [0..<r] @ r # [Suc r..<?n]"
    using r s by (simp add: upt_conv_Cons)
  have "fold resume [0..<r] s = s"
    by (rule fold_resume_unsettled) (use r s other in \<open>auto simp: list_all_iff\<close>)
  moreover have "fold resume [Suc r..<?n] (resume r s) = resume r s"
    by (rule fold_resume_unsettled) (use st' other in \<open>auto simp: list_all_iff\<close>)
  ultimately show ?thesis by (simp add: run_microtasks_def split)
qed

section \<open>What each event does to a waiting request\<close>

lemma pair_waiter:
  assumes "server_inv s" "r < length (requests s)" "requests s ! r = PairWaiting sid k t"
  shows "k < length (sockets s) \<and> t < length (timers s) \<and>
    sockets s ! k = base_listeners sid @ [(ConnectionUpdate, PairConnectionWait r sid k t)] \<and>
    (\<exists>tm. timers s ! t = Some tm \<and> callback tm = PairTimeoutCb r sid k)"
  using assms by (auto simp: server_inv_iff req_ok_def timer_is_def split: option.splits dest!: spec [of _ r])

lemma qr_waiter:
  assumes "server_inv s" "r < length (requests s)" "requests s ! r = QrWaiting k t"
  shows "k < length (sockets s) \<and> t < length (timers s) \<and>
    sockets s ! k = base_listeners qr_session_id @ [(ConnectionUpdate, QrWait r k t)] \<and>
    (\<exists>tm. timers s ! t = Some tm \<and> callback tm = QrTimeoutCb r k)"
  using assms by (auto simp: server_inv_iff req_ok_def timer_is_def split: option.splits dest!: spec [of _ r])

lemmas release_defs = released_def clear_timeout_def remove_all_listeners_def set_request_def
  delete_session_def base_listeners_def stripped_listeners_def

text \<open>
  The settled pairing wait after the microtask drain: \<open>resume\<close> of a
  \<open>PairSettled\<close> request, on a released state.
\<close>

lemma run_microtasks_pair_released:
  assumes "server_inv s" "r < length (requests s)" "requests s' = requests s"
  shows "run_microtasks (released s' r k t (PairSettled sid k v)) =
           (case v of Inr _ \<Rightarrow> released s' r k t (PairRequesting sid k)
            | Inl f \<Rightarrow> released (delete_session sid s') r k t (Done (Response 500 (ErrFailure f))))"
  using assms
  by (subst run_microtasks_after [OF assms(1,2), of _ "PairSettled sid k v"])
     (auto simp: released_def resume_def resume_pair_def pair_fail_def respond_def set_request_def
       delete_session_def split: sum.split)

lemma delete_session_twice [simp]: "delete_session sid (delete_session sid s) = delete_session sid s"
  by (simp add: delete_session_def)

text \<open>
  A \<open>connection.update\<close> on the socket of a waiting \<open>/pair\<close> request: \<open>open\<close>
  detaches the wait, clears the timer and moves the handler on to
  \<open>requestPairingCode\<close>; \<open>close\<close> does the same, drops the session and answers 500;
  any other update changes nothing.
\<close>

lemma connection_event_pair_waiter:
  assumes inv: "server_inv s" and r: "r < length (requests s)"
    and w: "requests s ! r = PairWaiting sid k t"
  shows "connection_event k u s = Some
    (if connection u = Some Open then released s r k t (PairRequesting sid k)
     else if connection u = Some Close
       then released (delete_session sid s) r k t (Done (Response 500 (ErrFailure (ConnectionClosed (status_code u)))))
     else s)"
proof -
  from pair_waiter [OF inv r w] have k: "k < length (sockets s)" and t: "t < length (timers s)"
    and sk: "sockets s ! k = base_listeners sid @ [(ConnectionUpdate, PairConnectionWait r sid k t)]"
    by auto
  have emit: "connection_event k u s =
      Some (run_microtasks (pair_connection_wait r sid k t u (session_connection_update sid u s)))"
    using k sk by (simp add: connection_event_def base_listeners_def)
  consider "connection u = Some Open" | "connection u = Some Close"
    | "connection u \<noteq> Some Open" "connection u \<noteq> Some Close" by blast
  then show ?thesis
  proof cases
    case 1
    then have "pair_connection_wait r sid k t u (session_connection_update sid u s) =
        released s r k t (PairSettled sid k (Inr ()))"
      using r w k sk by (simp add: pair_connection_wait_def session_connection_update_def settle_pair_def
          release_defs)
    with 1 emit show ?thesis by (simp add: run_microtasks_pair_released [OF inv r])
  next
    case 2
    then have "pair_connection_wait r sid k t u (session_connection_update sid u s) =
        released (delete_session sid s) r k t (PairSettled sid k (Inl (ConnectionClosed (status_code u))))"
      using r w k sk by (simp add: pair_connection_wait_def session_connection_update_def settle_pair_def
          release_defs)
    with 2 emit show ?thesis by (simp add: run_microtasks_pair_released [OF inv r])
  next
    case 3
    with emit inv show ?thesis
      by (simp add: pair_connection_wait_def session_connection_update_def run_microtasks_inv)
  qed
qed

lemma run_microtasks_qr_released:
  assumes "server_inv s" "r < length (requests s)" "requests s' = requests s"
  shows "run_microtasks (released s' r k t (QrSettled v)) =
           (case v of Inr url \<Rightarrow> released s' r k t (Done (Response 200 (QrBody url)))
            | Inl f \<Rightarrow> released (delete_session qr_session_id s') r k t (Done (Response 500 (ErrFailure f))))"
  using assms
  by (subst run_microtasks_after [OF assms(1,2), of _ "QrSettled v"])
     (auto simp: released_def resume_def resume_qr_def qr_fail_def respond_def set_request_def
       delete_session_def split: sum.split)

text \<open>
  A \<open>connection.update\<close> on the socket of a waiting \<open>/qr\<close> request: the session's
  own handler runs first (a \<open>close\<close> drops the session), then an event carrying a
  QR string detaches the wait, clears the timer and starts rendering.
\<close>

lemma connection_event_qr_waiter:
  assumes inv: "server_inv s" and r: "r < length (requests s)"
    and w: "requests s ! r = QrWaiting k t"
  shows "connection_event k u s = Some
    (if js_truthy (qr u)
     then released (session_connection_update qr_session_id u s) r k t (QrRendering k (the (qr u)))
     else session_connection_update qr_session_id u s)"
proof -
  from qr_waiter [OF inv r w] have k: "k < length (sockets s)" and t: "t < length (timers s)"
    and sk: "sockets s ! k = base_listeners qr_session_id @ [(ConnectionUpdate, QrWait r k t)]"
    by auto
  let ?s1 = "session_connection_update qr_session_id u s"
  have s1: "requests ?s1 = requests s" "sockets ?s1 = sockets s" "timers ?s1 = timers s"
    by (simp_all add: session_connection_update_def delete_session_def)
  have inv1: "server_inv ?s1"
    using inv by (simp add: session_connection_update_def)
  have emit: "connection_event k u s = Some (run_microtasks (qr_wait r k t u ?s1))"
    using k sk by (simp add: connection_event_def base_listeners_def)
  show ?thesis
  proof (cases "js_truthy (qr u)")
    case True
    then have "qr_wait r k t u ?s1 = released ?s1 r k t (QrRendering k (the (qr u)))"
      using r w k sk s1 by (simp add: qr_wait_def begin_render_def release_defs)
    moreover have "run_microtasks (released ?s1 r k t (QrRendering k (the (qr u)))) =
        released ?s1 r k t (QrRendering k (the (qr u)))"
      using r s1 by (subst run_microtasks_after [OF inv r, of _ "QrRendering k (the (qr u))"])
        (simp_all add: released_def resume_unsettled)
    ultimately show ?thesis using True emit by simp
  next
    case False
    with emit inv1 show ?thesis by (simp add: qr_wait_def run_microtasks_inv)
  qed
qed

text \<open>The timer of a waiting request fires once it is due, and answers 500.\<close>

lemma timer_fires_pair_waiter:
  assumes inv: "server_inv s" and r: "r < length (requests s)"
    and w: "requests s ! r = PairWaiting sid k t" and tm: "timers s ! t = Some tm"
  shows "timer_fires t s =
    (if deadline tm \<le> clock s
     then Some (released (delete_session sid s) r k t (Done (Response 500 (ErrFailure PairConnectTimeout))))
     else None)"
proof -
  from pair_waiter [OF inv r w] tm have k: "k < length (sockets s)" and t: "t < length (timers s)"
    and sk: "sockets s ! k = base_listeners sid @ [(ConnectionUpdate, PairConnectionWait r sid k t)]"
    and cb: "callback tm = PairTimeoutCb r sid k"
    by auto
  have "run_timer_callback (callback tm) (clear_timeout t s) =
      released (delete_session sid s) r k t (PairSettled sid k (Inl PairConnectTimeout))"
    using r w k sk cb by (simp add: pair_timeout_callback_def settle_pair_def release_defs)
  with t tm show ?thesis
    by (simp add: timer_fires_def run_microtasks_pair_released [OF inv r])
qed

lemma timer_fires_qr_waiter:
  assumes inv: "server_inv s" and r: "r < length (requests s)"
    and w: "requests s ! r = QrWaiting k t" and tm: "timers s ! t = Some tm"
  shows "timer_fires t s =
    (if deadline tm \<le> clock s
     then Some (released (delete_session qr_session_id s) r k t (Done (Response 500 (ErrFailure QrTimeout))))
     else None)"
proof -
  from qr_waiter [OF inv r w] tm have k: "k < length (sockets s)" and t: "t < length (timers s)"
    and sk: "sockets s ! k = base_listeners qr_session_id @ [(ConnectionUpdate, QrWait r k t)]"
    and cb: "callback tm = QrTimeoutCb r k"
    by auto
  have "run_timer_callback (callback tm) (clear_timeout t s) =
      released (delete_session qr_session_id s) r k t (QrSettled (Inl QrTimeout))"
    using r w k sk cb by (simp add: qr_timeout_callback_def settle_qr_def release_defs)
  with t tm show ?thesis
    by (simp add: timer_fires_def run_microtasks_qr_released [OF inv r])
qed

text \<open>A socket with no \<open>connection.update\<close> listener left ignores every event.\<close>

lemma connection_event_stripped:
  "server_inv s \<Longrightarrow> k < length (sockets s) \<Longrightarrow> sockets s ! k = stripped_listeners \<Longrightarrow>
   connection_event k u s = Some s"
  by (simp add: connection_event_def stripped_listeners_def run_microtasks_inv)

lemma socket_cases:
  assumes "server_inv s" "k < length (sockets s)"
  obtains "sockets s ! k = stripped_listeners"
  | r sid t where "r < length (requests s)" "requests s ! r = PairWaiting sid k t"
  | r t where "r < length (requests s)" "requests s ! r = QrWaiting k t"
  using assms by (auto simp: server_inv_iff sock_ok_iff waiting_socket_Some)

lemma server_inv_release_pair:
  "server_inv s \<Longrightarrow> r < length (requests s) \<Longrightarrow> requests s ! r = PairWaiting sid k t \<Longrightarrow>
   waiting_socket st = None \<Longrightarrow> \<not> settled st \<Longrightarrow> server_inv (released s r k t st)"
  by (rule server_inv_release) simp_all

lemma server_inv_release_qr:
  "server_inv s \<Longrightarrow> r < length (requests s) \<Longrightarrow> requests s ! r = QrWaiting k t \<Longrightarrow>
   waiting_socket st = None \<Longrightarrow> \<not> settled st \<Longrightarrow> server_inv (released s r k t st)"
  by (rule server_inv_release) simp_all

lemma server_inv_session_connection_update [simp]:
  "server_inv (session_connection_update sid u s) = server_inv s"
  by (simp add: session_connection_update_def)

lemma requests_session_connection_update [simp]:
  "requests (session_connection_update sid u s) = requests s"
  by (simp add: session_connection_update_def)

lemma server_inv_connection_event:
  assumes inv: "server_inv s" and ev: "connection_event k u s = Some s'"
  shows "server_inv s'"
proof -
  from ev have k: "k < length (sockets s)" by (simp add: connection_event_def split: if_splits)
  from inv k show ?thesis
  proof (cases rule: socket_cases)
    case 1
    with inv k ev show ?thesis by (simp add: connection_event_stripped)
  next
    case (2 r sid t)
    with inv ev show ?thesis
      by (auto simp: connection_event_pair_waiter split: if_splits intro: server_inv_release_pair)
  next
    case (3 r t)
    with inv ev show ?thesis
      by (auto simp: connection_event_qr_waiter split: if_splits intro!: server_inv_release_qr)
  qed
qed

lemma server_inv_timer_fires:
  assumes inv: "server_inv s" and ev: "timer_fires t s = Some s'"
  shows "server_inv s'"
proof -
  from ev obtain tm where t: "t < length (timers s)" and tm: "timers s ! t = Some tm"
    by (auto simp: timer_fires_def split: if_splits option.splits)
  from inv t have ok: "timer_ok s t" by (simp add: server_inv_iff)
  show ?thesis
  proof (cases "callback tm")
    case (PairTimeoutCb r sid k)
    with ok tm have r: "r < length (requests s)" and w: "requests s ! r = PairWaiting sid k t"
      by (simp_all add: timer_ok_def)
    with inv ev tm show ?thesis
      by (auto simp: timer_fires_pair_waiter split: if_splits intro: server_inv_release_pair)
  next
    case (QrTimeoutCb r k)
    with ok tm have r: "r < length (requests s)" and w: "requests s ! r = QrWaiting k t"
      by (simp_all add: timer_ok_def)
    with inv ev tm show ?thesis
      by (auto simp: timer_fires_qr_waiter split: if_splits intro: server_inv_release_qr)
  qed
qed

lemma server_inv_pair_fail:
  "server_inv s \<Longrightarrow> waiting_socket (requests s ! r) = None \<Longrightarrow> server_inv (pair_fail r sid f s)"
  unfolding pair_fail_def by (rule server_inv_respond) simp_all

lemma server_inv_qr_fail:
  "server_inv s \<Longrightarrow> waiting_socket (requests s ! r) = None \<Longrightarrow> server_inv (qr_fail r f s)"
  unfolding qr_fail_def by (rule server_inv_respond) simp_all

lemma server_inv_session_created:
  assumes inv: "server_inv s" and ev: "session_created r ok s = Some s'"
  shows "server_inv s'"
  using ev inv
  by (auto simp: session_created_def server_inv_pair_session_ready server_inv_qr_session_ready
      server_inv_pair_fail server_inv_qr_fail split: if_splits req_state.splits)

lemma server_inv_pairing_code_result:
  assumes inv: "server_inv s" and ev: "pairing_code_result r res s = Some s'"
  shows "server_inv s'"
  using ev inv
  by (auto simp: pairing_code_result_def server_inv_respond server_inv_pair_fail
      split: if_splits req_state.splits sum.splits)

text \<open>A rendered QR code settles \<open>qrPromise\<close>, and the drain answers 200 at once.\<close>

lemma qr_render_success_eq:
  assumes inv: "server_inv s" and r: "r < length (requests s)" and w: "requests s ! r = QrRendering k q"
  shows "run_microtasks (settle_qr r (Inr url) s) = respond r (Response 200 (QrBody url)) s"
  using r w
  by (subst run_microtasks_after [OF inv r, of _ "QrSettled (Inr url)"])
     (simp_all add: settle_qr_def set_request_def resume_def resume_qr_def respond_def)

lemma server_inv_qr_render_result:
  assumes inv: "server_inv s" and ev: "qr_render_result r res s = Some s'"
  shows "server_inv s'"
proof -
  from ev obtain k q where r: "r < length (requests s)" and w: "requests s ! r = QrRendering k q"
    by (auto simp: qr_render_result_def split: if_splits req_state.splits)
  show ?thesis
  proof (cases res)
    case (Inl e)
    with ev r w inv show ?thesis
      by (auto simp: qr_render_result_def set_request_def intro!: server_inv_set_idle)
  next
    case (Inr url)
    with ev r w inv show ?thesis
      by (auto simp: qr_render_result_def qr_render_success_eq [OF inv r w] server_inv_respond)
  qed
qed

lemma server_inv_http:
  "server_inv s \<Longrightarrow> server_inv (pair_request q s)" "server_inv s \<Longrightarrow> server_inv (qr_request s)"
  by (auto simp: pair_request_def qr_request_def Let_def intro!: server_inv_new_request
      split: query_value.split)

text \<open>Every step of the server preserves the invariant.\<close>

lemma server_inv_step:
  assumes "server_inv s" "step s a = Some s'"
  shows "server_inv s'"
  using assms
proof (cases a)
  case (HttpGet rt)
  with assms show ?thesis by (cases rt) (auto simp: server_inv_http)
qed (auto intro: server_inv_session_created server_inv_connection_event server_inv_timer_fires
       server_inv_pairing_code_result server_inv_qr_render_result)

lemma run_server_inv: "server_inv s \<Longrightarrow> run s as = Some s' \<Longrightarrow> server_inv s'"
  by (induction s as rule: run.induct) (auto intro: server_inv_step split: option.splits)

lemma run_init_server_inv: "run init_server as = Some s' \<Longrightarrow> server_inv s'"
  using server_inv_init by (rule run_server_inv)

lemma reachable_inv: "reachable s \<Longrightarrow> server_inv s"
  by (induction rule: reachable.induct) (auto intro: server_inv_init server_inv_step)

lemma reachable_run: "reachable s \<Longrightarrow> run s as = Some s' \<Longrightarrow> reachable s'"
  by (induction s as rule: run.induct) (auto intro: reachable.step split: option.splits)

lemma run_init_reachable: "run init_server as = Some s' \<Longrightarrow> reachable s'"
  using reachable.init by (rule reachable_run)

lemmas witness_defs = server_defs strip_non_digits_def is_ascii_digit_def Let_def

text \<open>Two concrete states the witnesses start from: a waiting \<open>/pair\<close> and a waiting \<open>/qr\<close>.\<close>

lemma pair_waiting_example:
  fixes s defines "s \<equiv> the (run init_server [HttpGet (GetPair (QString (js_str ''123''))), SessionCreated 0 True])"
  shows "server_inv s" "requests s = [PairWaiting (js_str ''123'') 0 0]"
    "length (sockets s) = 1" "timers s = [Some \<lparr>deadline = 30000, callback = PairTimeoutCb 0 (js_str ''123'') 0\<rparr>]"
    "active_sessions s (js_str ''123'') = Some 0" "clock s = 0"
proof -
  have "run init_server [HttpGet (GetPair (QString (js_str ''123''))), SessionCreated 0 True] = Some s"
    by (simp add: s_def witness_defs)
  then show "server_inv s" by (rule run_init_server_inv)
qed (simp_all add: s_def witness_defs)

lemma qr_waiting_example:
  fixes s defines "s \<equiv> the (run init_server [HttpGet GetQr, SessionCreated 0 True])"
  shows "server_inv s" "requests s = [QrWaiting 0 0]" "length (sockets s) = 1"
    "timers s = [Some \<lparr>deadline = 60000, callback = QrTimeoutCb 0 0\<rparr>]"
    "active_sessions s qr_session_id = Some 0" "clock s = 0"
proof -
  have "run init_server [HttpGet GetQr, SessionCreated 0 True] = Some s"
    by (simp add: s_def witness_defs)
  then show "server_inv s" by (rule run_init_server_inv)
qed (simp_all add: s_def witness_defs)

lemma pair_opened_example:
  fixes s defines "s \<equiv> the (run init_server [HttpGet (GetPair (QString (js_str ''123''))), SessionCreated 0 True,
     ConnectionEvent 0 \<lparr>connection = Some Open, status_code = None, qr = None\<rparr>])"
  shows "reachable s" "requests s = [PairRequesting (js_str ''123'') 0]" "length (sockets s) = 1"
    "active_sessions s (js_str ''123'') = Some 0"
proof -
  have "run init_server [HttpGet (GetPair (QString (js_str ''123''))), SessionCreated 0 True,
      ConnectionEvent 0 \<lparr>connection = Some Open, status_code = None, qr = None\<rparr>] = Some s"
    by (simp add: s_def witness_defs)
  then show "reachable s" by (rule run_init_reachable)
qed (simp_all add: s_def witness_defs)

lemma qr_rendering_example:
  fixes s defines "s \<equiv> the (run init_server [HttpGet GetQr, SessionCreated 0 True,
     ConnectionEvent 0 \<lparr>connection = None, status_code = None, qr = Some (js_str ''2@AbC'')\<rparr>])"
  shows "server_inv s" "requests s = [QrRendering 0 (js_str ''2@AbC'')]"
proof -
  have "run init_server [HttpGet GetQr, SessionCreated 0 True,
      ConnectionEvent 0 \<lparr>connection = None, status_code = None, qr = Some (js_str ''2@AbC'')\<rparr>] = Some s"
    by (simp add: s_def witness_defs)
  then show "server_inv s" by (rule run_init_server_inv)
qed (simp_all add: s_def witness_defs)

section \<open>Properties\<close>

text \<open>
  C2: Invariant of the server.  In every reachable state each request that
  waits on a connection owns its socket (the session's listeners plus its own
  wait) and its pending timer (whose callback names it), every other socket has no
  \<open>connection.update\<close> listener left, every pending timer belongs to a waiting
  request, and no settled promise is left with its continuation unrun between
  two steps.
\<close>

theorem reachable_server_inv: "reachable s \<Longrightarrow> server_inv s"
  by (induction rule: reachable.induct) (auto intro: server_inv_init server_inv_step)

theorem reachable_server_inv_witness:
  "server_inv (the (run init_server [HttpGet (GetPair (QString (js_str ''123''))), SessionCreated 0 True]))"
proof -
  have "reachable init_server" by (rule reachable.init)
  then have "reachable (pair_request (QString (js_str ''123'')) init_server)"
    by (rule reachable.step [of _ "HttpGet (GetPair (QString (js_str ''123'')))"]) simp
  then have "reachable (the (run init_server [HttpGet (GetPair (QString (js_str ''123''))), SessionCreated 0 True]))"
    by (rule reachable.step [of _ "SessionCreated 0 True"]) (simp add: witness_defs)
  then show ?thesis by (rule reachable_server_inv)
qed

text \<open>
  C6: Race of a \<open>/pair\<close> request with its socket opening.  An \<open>open\<close> event on
  the socket of a waiting \<open>/pair\<close> request removes every \<open>connection.update\<close>
  listener of that socket (the session's own handler included), clears the 30 s
  timer and moves the handler on to \<open>requestPairingCode\<close>; \<open>activeSessions\<close> is
  left as it was.
\<close>

theorem pair_open_event:
  assumes "server_inv s" "r < length (requests s)" "requests s ! r = PairWaiting sid k t"
    and "connection u = Some Open"
  shows "step s (ConnectionEvent k u) =
    Some (s\<lparr>sockets := (sockets s)[k := [(CredsUpdate, SaveCreds), (MessagesUpsert, MessagesLog)]],
            timers := (timers s)[t := None], requests := (requests s)[r := PairRequesting sid k]\<rparr>)"
  using connection_event_pair_waiter [OF assms(1-3), of u] assms(4)
  by (simp add: released_def stripped_listeners_def)

theorem pair_open_event_witness:
  "step (the (run init_server [HttpGet (GetPair (QString (js_str ''123''))), SessionCreated 0 True]))
     (ConnectionEvent 0 \<lparr>connection = Some Open, status_code = None, qr = None\<rparr>) =
   (let s = the (run init_server [HttpGet (GetPair (QString (js_str ''123''))), SessionCreated 0 True])
    in Some (s\<lparr>sockets := (sockets s)[0 := [(CredsUpdate, SaveCreds), (MessagesUpsert, MessagesLog)]],
                timers := (timers s)[0 := None], requests := [PairRequesting (js_str ''123'') 0]\<rparr>))"
proof -
  define s where "s = the (run init_server [HttpGet (GetPair (QString (js_str ''123''))), SessionCreated 0 True])"
  have run: "run init_server [HttpGet (GetPair (QString (js_str ''123''))), SessionCreated 0 True] = Some s"
    by (simp add: s_def witness_defs)
  have w: "requests s = [PairWaiting (js_str ''123'') 0 0]" "length (sockets s) = 1" "length (timers s) = 1"
    by (simp_all add: s_def witness_defs)
  have "step s (ConnectionEvent 0 \<lparr>connection = Some Open, status_code = None, qr = None\<rparr>) =
    Some (s\<lparr>sockets := (sockets s)[0 := [(CredsUpdate, SaveCreds), (MessagesUpsert, MessagesLog)]],
            timers := (timers s)[0 := None], requests := (requests s)[0 := PairRequesting (js_str ''123'') 0]\<rparr>)"
    by (rule pair_open_event [OF run_init_server_inv [OF run]]) (simp_all add: w)
  then show ?thesis unfolding Let_def s_def [symmetric] by (simp add: w)
qed

text \<open>
  C7: Race of a \<open>/pair\<close> request with its socket closing.  A \<open>close\<close> event on
  the socket of a waiting \<open>/pair\<close> request drops the session from
  \<open>activeSessions\<close>, detaches every \<open>connection.update\<close> listener, clears the
  timer and answers the request 500 with the close's status code.
\<close>

theorem pair_close_event:
  assumes "server_inv s" "r < length (requests s)" "requests s ! r = PairWaiting sid k t"
    and "connection u = Some Close"
  shows "step s (ConnectionEvent k u) =
    Some (s\<lparr>active_sessions := (active_sessions s)(sid := None),
            sockets := (sockets s)[k := [(CredsUpdate, SaveCreds), (MessagesUpsert, MessagesLog)]],
            timers := (timers s)[t := None],
            requests := (requests s)[r := Done (Response 500 (ErrFailure (ConnectionClosed (status_code u))))]\<rparr>)"
  using connection_event_pair_waiter [OF assms(1-3), of u] assms(4)
  by (simp add: released_def stripped_listeners_def delete_session_def)

theorem pair_close_event_witness:
  "let s = the (run init_server [HttpGet (GetPair (QString (js_str ''123''))), SessionCreated 0 True])
   in step s (ConnectionEvent 0 \<lparr>connection = Some Close, status_code = Some 401, qr = None\<rparr>) =
      Some (s\<lparr>active_sessions := (active_sessions s)(js_str ''123'' := None),
              sockets := (sockets s)[0 := [(CredsUpdate, SaveCreds), (MessagesUpsert, MessagesLog)]],
              timers := (timers s)[0 := None],
              requests := [Done (Response 500 (ErrFailure (ConnectionClosed (Some 401))))]\<rparr>)"
proof -
  define s where "s = the (run init_server [HttpGet (GetPair (QString (js_str ''123''))), SessionCreated 0 True])"
  note ex = pair_waiting_example [folded s_def]
  have "step s (ConnectionEvent 0 \<lparr>connection = Some Close, status_code = Some 401, qr = None\<rparr>) =
      Some (s\<lparr>active_sessions := (active_sessions s)(js_str ''123'' := None),
              sockets := (sockets s)[0 := [(CredsUpdate, SaveCreds), (MessagesUpsert, MessagesLog)]],
              timers := (timers s)[0 := None],
              requests := (requests s)[0 := Done (Response 500 (ErrFailure (ConnectionClosed (Some 401))))]\<rparr>)"
    using pair_close_event [OF ex(1), where r = 0 and sid = "js_str ''123''" and k = 0 and t = 0
        and u = "\<lparr>connection = Some Close, status_code = Some 401, qr = None\<rparr>"]
    by (simp add: ex(2))
  then show ?thesis unfolding Let_def s_def [symmetric] by (simp add: ex(2))
qed

text \<open>
  C8: Every waiting request is eventually answered.  Whatever the socket does,
  a request waiting for its connection (\<open>/pair\<close>) or its QR string (\<open>/qr\<close>) is
  answered 500 once enough time has passed and its timer fires.
\<close>

theorem waiting_request_answered:
  assumes inv: "server_inv s" and r: "r < length (requests s)"
    and w: "waiting_socket (requests s ! r) \<noteq> None"
  shows "\<exists>d t f s'. run s [TimePasses d, TimerFires t] = Some s' \<and>
           requests s' ! r = Done (Response 500 (ErrFailure f))"
proof -
  from w obtain k t where
    "(\<exists>sid. requests s ! r = PairWaiting sid k t) \<or> requests s ! r = QrWaiting k t"
    by (cases "requests s ! r") auto
  then obtain tm where tm: "timers s ! t = Some tm" and t: "t < length (timers s)"
    using pair_waiter [OF inv r] qr_waiter [OF inv r] by blast
  define s1 where "s1 = s\<lparr>clock := clock s + deadline tm\<rparr>"
  have inv1: "server_inv s1" and r1: "r < length (requests s1)" and tm1: "timers s1 ! t = Some tm"
    and due: "deadline tm \<le> clock s1" and req1: "requests s1 = requests s"
    using inv r tm by (simp_all add: s1_def)
  have run: "run s [TimePasses (deadline tm), TimerFires t] = timer_fires t s1"
    by (simp add: s1_def split: option.split)
  from \<open>(\<exists>sid. requests s ! r = PairWaiting sid k t) \<or> requests s ! r = QrWaiting k t\<close>
  show ?thesis
  proof (elim disjE exE)
    fix sid assume "requests s ! r = PairWaiting sid k t"
    with req1 have "requests s1 ! r = PairWaiting sid k t" by simp
    from timer_fires_pair_waiter [OF inv1 r1 this tm1] due
    have "run s [TimePasses (deadline tm), TimerFires t] =
        Some (released (delete_session sid s1) r k t (Done (Response 500 (ErrFailure PairConnectTimeout))))"
      unfolding run by simp
    moreover have "requests (released (delete_session sid s1) r k t
        (Done (Response 500 (ErrFailure PairConnectTimeout)))) ! r = Done (Response 500 (ErrFailure PairConnectTimeout))"
      using r1 by (simp add: released_def)
    ultimately show ?thesis by blast
  next
    assume "requests s ! r = QrWaiting k t"
    with req1 have "requests s1 ! r = QrWaiting k t" by simp
    from timer_fires_qr_waiter [OF inv1 r1 this tm1] due
    have "run s [TimePasses (deadline tm), TimerFires t] =
        Some (released (delete_session qr_session_id s1) r k t (Done (Response 500 (ErrFailure QrTimeout))))"
      unfolding run by simp
    moreover have "requests (released (delete_session qr_session_id s1) r k t
        (Done (Response 500 (ErrFailure QrTimeout)))) ! r = Done (Response 500 (ErrFailure QrTimeout))"
      using r1 by (simp add: released_def)
    ultimately show ?thesis by blast
  qed
qed

theorem waiting_request_answered_witness:
  "\<exists>d t f s'. run (the (run init_server [HttpGet GetQr, SessionCreated 0 True])) [TimePasses d, TimerFires t] = Some s' \<and>
     requests s' ! 0 = Done (Response 500 (ErrFailure f))"
  using qr_waiting_example by (intro waiting_request_answered) simp_all

text \<open>
  C5: In every reachable state, a socket that no request waits on ignores every
  \<open>connection.update\<close>.  Once a \<open>/pair\<close> request has left its wait, the
  socket's session handler is gone with the wait's listener (both were removed by
  \<open>removeAllListeners('connection.update')\<close>).  So a later \<open>close\<close>, even a
  log-out, leaves the state unchanged, and the session stays in
  \<open>activeSessions\<close> for good.
\<close>

theorem unwaited_socket_ignores_events:
  assumes reach: "reachable s" and k: "k < length (sockets s)"
    and free: "\<not> list_ex (\<lambda>r. waiting_socket (requests s ! r) = Some k) [0..<length (requests s)]"
  shows "step s (ConnectionEvent k u) = Some s"
proof -
  from reach have inv: "server_inv s" by (rule reachable_inv)
  from inv k show ?thesis
proof (cases rule: socket_cases)
  case 1
  with inv k show ?thesis by (simp add: connection_event_stripped)
next
  case (2 r sid t)
  then have "list_ex (\<lambda>r. waiting_socket (requests s ! r) = Some k) [0..<length (requests s)]"
    unfolding list_ex_iff by force
  with free show ?thesis ..
next
  case (3 r t)
  then have "list_ex (\<lambda>r. waiting_socket (requests s ! r) = Some k) [0..<length (requests s)]"
    unfolding list_ex_iff by force
  with free show ?thesis ..
qed
qed

theorem unwaited_socket_ignores_events_witness:
  "let s = the (run init_server [HttpGet (GetPair (QString (js_str ''123''))), SessionCreated 0 True,
     ConnectionEvent 0 \<lparr>connection = Some Open, status_code = None, qr = None\<rparr>])
   in step s (ConnectionEvent 0 \<lparr>connection = Some Close, status_code = Some 401, qr = None\<rparr>) = Some s \<and>
      active_sessions s (js_str ''123'') = Some 0"
proof -
  define s where "s = the (run init_server [HttpGet (GetPair (QString (js_str ''123''))), SessionCreated 0 True,
     ConnectionEvent 0 \<lparr>connection = Some Open, status_code = None, qr = None\<rparr>])"
  note ex = pair_opened_example [folded s_def]
  have "step s (ConnectionEvent 0 \<lparr>connection = Some Close, status_code = Some 401, qr = None\<rparr>) = Some s"
    by (rule unwaited_socket_ignores_events [OF ex(1)]) (simp_all add: ex(2,3))
  with ex(4) show ?thesis unfolding Let_def s_def [symmetric] by simp
qed

text \<open>
  C15: The first QR string of a \<open>/qr\<close> socket ends the wait.  A
  \<open>connection.update\<close> carrying a QR string (and no \<open>close\<close>) on the socket of a
  waiting \<open>/qr\<close> request clears the 60 s timer, removes every
  \<open>connection.update\<close> listener of the socket and suspends the handler at
  \<open>qrcode.toDataURL\<close>: from then on no timeout and no later event reaches it.
\<close>

theorem qr_string_event:
  assumes "server_inv s" "r < length (requests s)" "requests s ! r = QrWaiting k t"
    and "qr u = Some q" "q \<noteq> []" "connection u \<noteq> Some Close"
  shows "step s (ConnectionEvent k u) =
    Some (s\<lparr>sockets := (sockets s)[k := [(CredsUpdate, SaveCreds), (MessagesUpsert, MessagesLog)]],
            timers := (timers s)[t := None], requests := (requests s)[r := QrRendering k q]\<rparr>)"
  using connection_event_qr_waiter [OF assms(1-3), of u] assms(4-6)
  by (simp add: released_def stripped_listeners_def session_connection_update_def)

theorem qr_string_event_witness:
  "let s = the (run init_server [HttpGet GetQr, SessionCreated 0 True])
   in step s (ConnectionEvent 0 \<lparr>connection = None, status_code = None, qr = Some (js_str ''2@AbC'')\<rparr>) =
      Some (s\<lparr>sockets := (sockets s)[0 := [(CredsUpdate, SaveCreds), (MessagesUpsert, MessagesLog)]],
              timers := (timers s)[0 := None], requests := [QrRendering 0 (js_str ''2@AbC'')]\<rparr>)"
proof -
  define s where "s = the (run init_server [HttpGet GetQr, SessionCreated 0 True])"
  note ex = qr_waiting_example [folded s_def]
  have "step s (ConnectionEvent 0 \<lparr>connection = None, status_code = None, qr = Some (js_str ''2@AbC'')\<rparr>) =
      Some (s\<lparr>sockets := (sockets s)[0 := [(CredsUpdate, SaveCreds), (MessagesUpsert, MessagesLog)]],
              timers := (timers s)[0 := None], requests := (requests s)[0 := QrRendering 0 (js_str ''2@AbC'')]\<rparr>)"
    using qr_string_event [OF ex(1), where r = 0 and k = 0 and t = 0 and q = "js_str ''2@AbC''"
        and u = "\<lparr>connection = None, status_code = None, qr = Some (js_str ''2@AbC'')\<rparr>"]
    by (simp add: ex(2))
  then show ?thesis unfolding Let_def s_def [symmetric] by (simp add: ex(2))
qed

text \<open>
  C16: A rendered QR code is sent at once.  When \<open>qrcode.toDataURL\<close> resolves
  for a \<open>/qr\<close> request suspended on it, the same step settles \<open>qrPromise\<close>, runs
  the handler's continuation and answers 200 with the data URL; nothing else
  changes.
\<close>

theorem qr_render_success:
  assumes "server_inv s" "r < length (requests s)" "requests s ! r = QrRendering k q"
  shows "step s (QrRenderResult r (Inr url)) =
    Some (s\<lparr>requests := (requests s)[r := Done (Response 200 (QrBody url))]\<rparr>)"
  using assms by (simp add: qr_render_result_def qr_render_success_eq respond_def set_request_def)

theorem qr_render_success_witness:
  "let s = the (run init_server [HttpGet GetQr, SessionCreated 0 True,
     ConnectionEvent 0 \<lparr>connection = None, status_code = None, qr = Some (js_str ''2@AbC'')\<rparr>])
   in step s (QrRenderResult 0 (Inr (js_str ''data:image/png''))) =
      Some (s\<lparr>requests := [Done (Response 200 (QrBody (js_str ''data:image/png'')))]\<rparr>)"
proof -
  define s where "s = the (run init_server [HttpGet GetQr, SessionCreated 0 True,
     ConnectionEvent 0 \<lparr>connection = None, status_code = None, qr = Some (js_str ''2@AbC'')\<rparr>])"
  note ex = qr_rendering_example [folded s_def]
  have "step s (QrRenderResult 0 (Inr (js_str ''data:image/png''))) =
      Some (s\<lparr>requests := (requests s)[0 := Done (Response 200 (QrBody (js_str ''data:image/png'')))]\<rparr>)"
    by (rule qr_render_success [OF ex(1)]) (simp_all add: ex(2))
  then show ?thesis unfolding Let_def s_def [symmetric] by (simp add: ex(2))
qed

end
