(* ===== verification/ServerJs.thy ===== *)
theory ServerJs
  imports IndexServer
begin

text \<open>
  The second server, \<open>src/server.js\<close>, as a state machine in the style of
  \<open>IndexServer\<close>.  It keeps no session registry: its state is the set of
  credential directories on disk (\<open>auth_info_<number>\<close>, \<open>auth_info_qr\<close>), the
  listener list of every socket it has created together with whether the socket
  has ended, the pending timers, the QR renderings in flight inside a QR listener,
  where each request handler is suspended, and the clock.  The library's
  \<open>sock.end(err)\<close> (Baileys) is modelled from its documented behaviour: it does
  nothing on an ended socket, otherwise it marks the socket ended, emits a
  \<open>connection.update\<close> with \<open>connection: 'close'\<close> to a copy of the listeners and
  then removes every \<open>connection.update\<close> listener.  A close of the connection by
  the network or by a log-out reaches the program through the same \<open>end\<close>, so a
  \<open>close\<close> event of the environment is an \<open>end\<close> with the event's status code.
\<close>

section \<open>State\<close>

datatype sj_listener =
    SjSaveCreds
  | SjPairConnection js_string js_string
  | SjQrConnection nat nat nat

datatype sj_timer_callback = SjDelayCb nat | SjQrTimeoutCb nat nat

record sj_timer =
  sj_deadline :: nat
  sj_callback :: sj_timer_callback

text \<open>The JSON bodies of \<open>server.js\<close>.\<close>

datatype sj_body =
    SjErrNumberRequired
  | SjErrPairing failure
  | SjErrQr failure
  | SjCodeBody js_string
  | SjQrBody js_string

datatype sj_response = SjResponse nat sj_body

text \<open>
  Where a handler is suspended: at \<open>useMultiFileAuthState\<close> (\<open>Loading\<close>), at the
  2 s delay, at \<open>requestPairingCode\<close>, at \<open>await qrPromise\<close>, with \<open>qrPromise\<close>
  settled and its continuation queued, rejected before its \<open>try\<close> (the request
  is never answered), or answered.
\<close>

datatype sj_req =
    SjPairLoading js_string
  | SjPairDelay js_string nat
  | SjPairRequesting js_string nat
  | SjQrLoading
  | SjQrWaiting nat nat
  | SjQrSettled "failure + js_string"
  | SjRejected
  | SjDone sj_response

text \<open>
  An invocation of the \<open>/qr\<close> listener suspended at \<open>await qrcode.toDataURL(qr)\<close>:
  its request, its socket, and whether the update it was called with also said
  \<open>connection: 'close'\<close> (the test of line 93 runs after the await).
\<close>

record sj_render =
  render_req :: nat
  render_sock :: nat
  render_close :: bool

record sj_server =
  cred_dirs :: "js_string set"
  sj_sockets :: "sj_listener emitter list"
  sj_ended :: "bool list"
  sj_timers :: "sj_timer option list"
  sj_renders :: "sj_render option list"
  sj_requests :: "sj_req list"
  sj_clock :: nat

definition sj_init :: sj_server where
  "sj_init = \<lparr>cred_dirs = {}, sj_sockets = [], sj_ended = [], sj_timers = [], sj_renders = [],
     sj_requests = [], sj_clock = 0\<rparr>"

definition logged_out :: int where
  "logged_out = 401"

definition sj_delay_ms :: nat where
  "sj_delay_ms = 2000"

definition sj_qr_timeout_ms :: nat where
  "sj_qr_timeout_ms = 30000"

definition sj_qr_path :: js_string where
  "sj_qr_path = js_str ''auth_info_qr''"

text \<open>
  \<open>`${number}`\<close>: a string stays as it is, an array (a repeated query key) is
  joined with commas as \<open>Array.prototype.toString\<close> does.
\<close>

fun js_join_comma :: "js_string list \<Rightarrow> js_string" where
  "js_join_comma [] = []"
| "js_join_comma [x] = x"
| "js_join_comma (x # xs) = x @ js_str '','' @ js_join_comma xs"

fun js_template :: "query_value \<Rightarrow> js_string" where
  "js_template (QString n) = n"
| "js_template (QArray ns) = js_join_comma ns"
| "js_template QAbsent = js_str ''undefined''"

text \<open>\<open>!number\<close>: absent or empty; an array is an object and always truthy.\<close>

fun sj_number_missing :: "query_value \<Rightarrow> bool" where
  "sj_number_missing QAbsent = True"
| "sj_number_missing (QString n) = (n = [])"
| "sj_number_missing (QArray _) = False"

definition sj_pair_path :: "js_string \<Rightarrow> js_string" where
  "sj_pair_path num = js_str ''auth_info_'' @ num"

section \<open>Primitive effects\<close>

definition sj_new_request :: "sj_req \<Rightarrow> sj_server \<Rightarrow> sj_server" where
  "sj_new_request st s = s\<lparr>sj_requests := sj_requests s @ [st]\<rparr>"

definition sj_set_request :: "nat \<Rightarrow> sj_req \<Rightarrow> sj_server \<Rightarrow> sj_server" where
  "sj_set_request r st s = s\<lparr>sj_requests := (sj_requests s)[r := st]\<rparr>"

definition sj_new_socket :: "sj_listener emitter \<Rightarrow> sj_server \<Rightarrow> nat \<times> sj_server" where
  "sj_new_socket ls s =
     (length (sj_sockets s), s\<lparr>sj_sockets := sj_sockets s @ [ls], sj_ended := sj_ended s @ [False]\<rparr>)"

definition sj_add_listener :: "nat \<Rightarrow> ev_name \<Rightarrow> sj_listener \<Rightarrow> sj_server \<Rightarrow> sj_server" where
  "sj_add_listener k e l s = s\<lparr>sj_sockets := (sj_sockets s)[k := ev_on e l (sj_sockets s ! k)]\<rparr>"

definition sj_set_timeout :: "nat \<Rightarrow> sj_timer_callback \<Rightarrow> sj_server \<Rightarrow> nat \<times> sj_server" where
  "sj_set_timeout ms cb s =
     (length (sj_timers s),
      s\<lparr>sj_timers := sj_timers s @ [Some \<lparr>sj_deadline = sj_clock s + ms, sj_callback = cb\<rparr>]\<rparr>)"

definition sj_clear_timeout :: "nat \<Rightarrow> sj_server \<Rightarrow> sj_server" where
  "sj_clear_timeout t s = s\<lparr>sj_timers := (sj_timers s)[t := None]\<rparr>"

text \<open>\<open>fs.rmSync(path, {recursive: true, force: true})\<close> and \<open>fs.rm\<close>: the directory is gone.\<close>

definition sj_remove_dir :: "js_string \<Rightarrow> sj_server \<Rightarrow> sj_server" where
  "sj_remove_dir p s = s\<lparr>cred_dirs := cred_dirs s - {p}\<rparr>"

text \<open>The library's \<open>sock.end(err)\<close>, called with the update it emits.\<close>

definition sj_end_emit ::
  "(conn_update \<Rightarrow> sj_listener \<Rightarrow> sj_server \<Rightarrow> sj_server) \<Rightarrow> nat \<Rightarrow> conn_update \<Rightarrow> sj_server \<Rightarrow> sj_server" where
  "sj_end_emit call k u s =
     (if sj_ended s ! k then s
      else (let s1 = s\<lparr>sj_ended := (sj_ended s)[k := True]\<rparr>;
                s2 = ev_emit (call u) (ev_listeners ConnectionUpdate (sj_sockets s ! k)) s1
            in s2\<lparr>sj_sockets := (sj_sockets s2)[k := ev_remove_all ConnectionUpdate (sj_sockets s2 ! k)]\<rparr>))"

section \<open>The handlers\<close>

text \<open>\<open>GET /pair\<close> up to \<open>await useMultiFileAuthState(sessionPath)\<close> (lines 22-28).\<close>

definition sj_pair_request :: "query_value \<Rightarrow> sj_server \<Rightarrow> sj_server" where
  "sj_pair_request q s =
     (if sj_number_missing q then sj_new_request (SjDone (SjResponse 400 SjErrNumberRequired)) s
      else sj_new_request (SjPairLoading (js_template q)) s)"

text \<open>\<open>GET /qr\<close> up to \<open>await useMultiFileAuthState(sessionPath)\<close> (lines 66-69).\<close>

definition sj_qr_request :: "sj_server \<Rightarrow> sj_server" where
  "sj_qr_request s = sj_new_request SjQrLoading s"

text \<open>
  \<open>/pair\<close> once the credential store is loaded (its directory now exists): the
  socket with its two listeners, then the 2 s delay inside the \<open>try\<close> (lines
  28-55).
\<close>

definition sj_pair_ready :: "nat \<Rightarrow> js_string \<Rightarrow> sj_server \<Rightarrow> sj_server" where
  "sj_pair_ready r num s =
     (let path = sj_pair_path num;
          s1 = s\<lparr>cred_dirs := insert path (cred_dirs s)\<rparr>;
          (k, s2) = sj_new_socket [] s1;
          s3 = sj_add_listener k CredsUpdate SjSaveCreds s2;
          s4 = sj_add_listener k ConnectionUpdate (SjPairConnection num path) s3;
          (t, s5) = sj_set_timeout sj_delay_ms (SjDelayCb r) s4
      in sj_set_request r (SjPairDelay num k) s5)"

text \<open>
  \<open>/qr\<close> once the credential store is loaded: the socket, \<open>saveCreds\<close>, the
  promise executor (30 s timer, QR listener), then \<open>await qrPromise\<close> (lines
  69-102).
\<close>

definition sj_qr_ready :: "nat \<Rightarrow> sj_server \<Rightarrow> sj_server" where
  "sj_qr_ready r s =
     (let s1 = s\<lparr>cred_dirs := insert sj_qr_path (cred_dirs s)\<rparr>;
          (k, s2) = sj_new_socket [] s1;
          s3 = sj_add_listener k CredsUpdate SjSaveCreds s2;
          (t, s4) = sj_set_timeout sj_qr_timeout_ms (SjQrTimeoutCb r k) s3;
          s5 = sj_add_listener k ConnectionUpdate (SjQrConnection r k t) s4
      in sj_set_request r (SjQrWaiting k t) s5)"

text \<open>
  \<open>useMultiFileAuthState\<close> settles.  A rejection happens before the \<open>try\<close>: the
  \<open>async\<close> handler's promise rejects, Express 4 does not answer, and the process
  handler of line 19 only logs it.
\<close>

definition sj_auth_ready :: "nat \<Rightarrow> bool \<Rightarrow> sj_server \<Rightarrow> sj_server option" where
  "sj_auth_ready r ok s =
     (if r < length (sj_requests s) then
        (case sj_requests s ! r of
           SjPairLoading num \<Rightarrow> Some (if ok then sj_pair_ready r num s else sj_set_request r SjRejected s)
         | SjQrLoading \<Rightarrow> Some (if ok then sj_qr_ready r s else sj_set_request r SjRejected s)
         | _ \<Rightarrow> None)
      else None)"

text \<open>\<open>resolve\<close>/\<open>reject\<close> of \<open>qrPromise\<close>: only the first call settles it.\<close>

definition sj_settle_qr :: "nat \<Rightarrow> failure + js_string \<Rightarrow> sj_server \<Rightarrow> sj_server" where
  "sj_settle_qr r v s =
     (if r < length (sj_requests s) then
        (case sj_requests s ! r of
           SjQrWaiting k t \<Rightarrow> sj_set_request r (SjQrSettled v) s
         | _ \<Rightarrow> s)
      else s)"

text \<open>
  The \<open>connection.update\<close> handler of \<open>/pair\<close> (lines 38-52): on a close whose
  status code is \<open>DisconnectReason.loggedOut\<close> it removes the session's
  credential directory; everything else only logs.
\<close>

definition sj_pair_connection_handler :: "js_string \<Rightarrow> conn_update \<Rightarrow> sj_server \<Rightarrow> sj_server" where
  "sj_pair_connection_handler path u s =
     (if connection u = Some Close \<and> status_code u = Some logged_out then sj_remove_dir path s else s)"

text \<open>
  The \<open>async\<close> QR listener of \<open>/qr\<close> (lines 84-98): on a QR string it clears the
  timeout and suspends at \<open>await qrcode.toDataURL(qr)\<close>, the rest of its body
  (\<open>resolve\<close>, \<open>sock.end()\<close>, the close test) running in \<open>sj_render_result\<close>;
  without a QR string it runs the close test at once and removes
  \<open>auth_info_qr\<close> on any close.
\<close>

definition sj_qr_listener :: "nat \<Rightarrow> nat \<Rightarrow> nat \<Rightarrow> conn_update \<Rightarrow> sj_server \<Rightarrow> sj_server" where
  "sj_qr_listener r k t u s =
     (if js_truthy (qr u) then
        (sj_clear_timeout t s)\<lparr>sj_renders := sj_renders s @
           [Some \<lparr>render_req = r, render_sock = k, render_close = (connection u = Some Close)\<rparr>]\<rparr>
      else if connection u = Some Close then sj_remove_dir sj_qr_path s
      else s)"

text \<open>Calling a registered closure (\<open>saveCreds\<close> ignores \<open>connection.update\<close>).\<close>

fun sj_call :: "conn_update \<Rightarrow> sj_listener \<Rightarrow> sj_server \<Rightarrow> sj_server" where
  "sj_call u SjSaveCreds s = s"
| "sj_call u (SjPairConnection num path) s = sj_pair_connection_handler path u s"
| "sj_call u (SjQrConnection r k t) s = sj_qr_listener r k t u s"

definition sj_end :: "nat \<Rightarrow> conn_update \<Rightarrow> sj_server \<Rightarrow> sj_server" where
  "sj_end k u s = sj_end_emit sj_call k u s"

text \<open>\<open>sock.end(err)\<close> with a plain \<open>Error\<close> or none: the close carries no status code.\<close>

definition sj_close_update :: conn_update where
  "sj_close_update = \<lparr>connection = Some Close, status_code = None, qr = None\<rparr>"

text \<open>The continuation of \<open>/qr\<close> after \<open>await qrPromise\<close> (lines 101-116).\<close>

definition sj_resume :: "nat \<Rightarrow> sj_server \<Rightarrow> sj_server" where
  "sj_resume r s =
     (case sj_requests s ! r of
        SjQrSettled (Inr url) \<Rightarrow> sj_set_request r (SjDone (SjResponse 200 (SjQrBody url))) s
      | SjQrSettled (Inl f) \<Rightarrow> sj_set_request r (SjDone (SjResponse 500 (SjErrQr f))) s
      | _ \<Rightarrow> s)"

definition sj_run_microtasks :: "sj_server \<Rightarrow> sj_server" where
  "sj_run_microtasks s = fold sj_resume [0..<length (sj_requests s)] s"

text \<open>
  A due timer: the 2 s delay resolves and \<open>/pair\<close> goes on to
  \<open>requestPairingCode\<close> (lines 55-56); the QR timeout ends the socket and rejects
  \<open>qrPromise\<close> (lines 80-83).
\<close>

fun sj_run_timer_callback :: "sj_timer_callback \<Rightarrow> sj_server \<Rightarrow> sj_server" where
  "sj_run_timer_callback (SjDelayCb r) s =
     (if r < length (sj_requests s) then
        (case sj_requests s ! r of
           SjPairDelay num k \<Rightarrow> sj_set_request r (SjPairRequesting num k) s
         | _ \<Rightarrow> s)
      else s)"
| "sj_run_timer_callback (SjQrTimeoutCb r k) s =
     sj_settle_qr r (Inl QrTimeout) (sj_end k sj_close_update s)"

text \<open>\<open>requestPairingCode\<close> settles: the raw code is sent (lines 56-62).\<close>

definition sj_pairing_code_result :: "nat \<Rightarrow> unit + js_string \<Rightarrow> sj_server \<Rightarrow> sj_server option" where
  "sj_pairing_code_result r res s =
     (if r < length (sj_requests s) then
        (case sj_requests s ! r of
           SjPairRequesting num k \<Rightarrow>
             (case res of
                Inr code \<Rightarrow> Some (sj_set_request r (SjDone (SjResponse 200 (SjCodeBody code))) s)
              | Inl _ \<Rightarrow> Some (sj_set_request r (SjDone (SjResponse 500 (SjErrPairing PairingRequestFailed))) s))
         | _ \<Rightarrow> None)
      else None)"

text \<open>
  \<open>qrcode.toDataURL\<close> settles inside a QR listener (lines 89-96): on success it
  resolves \<open>qrPromise\<close>, ends the socket (whose close reaches the same listener
  and removes \<open>auth_info_qr\<close>), then runs the close test of its own update; a
  rejection escapes the \<open>async\<close> listener and is only logged.
\<close>

definition sj_render_result :: "nat \<Rightarrow> unit + js_string \<Rightarrow> sj_server \<Rightarrow> sj_server option" where
  "sj_render_result j res s =
     (if j < length (sj_renders s) then
        (case sj_renders s ! j of
           Some job \<Rightarrow>
             (let s1 = s\<lparr>sj_renders := (sj_renders s)[j := None]\<rparr> in
              case res of
                Inr url \<Rightarrow>
                  (let s2 = sj_settle_qr (render_req job) (Inr url) s1;
                       s3 = sj_end (render_sock job) sj_close_update s2
                   in Some (sj_run_microtasks
                             (if render_close job then sj_remove_dir sj_qr_path s3 else s3)))
              | Inl _ \<Rightarrow> Some s1)
         | None \<Rightarrow> None)
      else None)"

section \<open>Steps\<close>

datatype sj_action =
    SjHttpGet route
  | SjAuthReady nat bool
  | SjConnectionEvent nat conn_update
  | SjTimePasses nat
  | SjTimerFires nat
  | SjPairingCodeResult nat "unit + js_string"
  | SjQrRenderResult nat "unit + js_string"

text \<open>
  A \<open>connection.update\<close> of a live socket: a close goes through \<open>end\<close>, any
  other update is emitted to a copy of the listeners.
\<close>

definition sj_connection_event :: "nat \<Rightarrow> conn_update \<Rightarrow> sj_server \<Rightarrow> sj_server option" where
  "sj_connection_event k u s =
     (if k < length (sj_sockets s) \<and> \<not> sj_ended s ! k then
        Some (sj_run_microtasks
               (if connection u = Some Close then sj_end k u s
                else ev_emit (sj_call u) (ev_listeners ConnectionUpdate (sj_sockets s ! k)) s))
      else None)"

definition sj_timer_fires :: "nat \<Rightarrow> sj_server \<Rightarrow> sj_server option" where
  "sj_timer_fires t s =
     (if t < length (sj_timers s) then
        (case sj_timers s ! t of
           Some tm \<Rightarrow>
             (if sj_deadline tm \<le> sj_clock s
              then Some (sj_run_microtasks (sj_run_timer_callback (sj_callback tm) (sj_clear_timeout t s)))
              else None)
         | None \<Rightarrow> None)
      else None)"

fun sj_step :: "sj_server \<Rightarrow> sj_action \<Rightarrow> sj_server option" where
  "sj_step s (SjHttpGet (GetPair q)) = Some (sj_pair_request q s)"
| "sj_step s (SjHttpGet GetQr) = Some (sj_qr_request s)"
| "sj_step s (SjAuthReady r ok) = sj_auth_ready r ok s"
| "sj_step s (SjConnectionEvent k u) = sj_connection_event k u s"
| "sj_step s (SjTimePasses d) = Some (s\<lparr>sj_clock := sj_clock s + d\<rparr>)"
| "sj_step s (SjTimerFires t) = sj_timer_fires t s"
| "sj_step s (SjPairingCodeResult r res) = sj_pairing_code_result r res s"
| "sj_step s (SjQrRenderResult j res) = sj_render_result j res s"

fun sj_run :: "sj_server \<Rightarrow> sj_action list \<Rightarrow> sj_server option" where
  "sj_run s [] = Some s"
| "sj_run s (a # as) = (case sj_step s a of None \<Rightarrow> None | Some s' \<Rightarrow> sj_run s' as)"

inductive sj_reachable :: "sj_server \<Rightarrow> bool" where
  init: "sj_reachable sj_init"
| step: "sj_reachable s \<Longrightarrow> sj_step s a = Some s' \<Longrightarrow> sj_reachable s'"

lemmas sj_defs = sj_init_def sj_new_request_def sj_set_request_def sj_new_socket_def
  sj_add_listener_def sj_set_timeout_def sj_clear_timeout_def sj_remove_dir_def sj_end_emit_def
  sj_pair_request_def sj_qr_request_def sj_pair_ready_def sj_qr_ready_def sj_auth_ready_def
  sj_settle_qr_def sj_end_def sj_close_update_def sj_resume_def sj_run_microtasks_def
  sj_pairing_code_result_def sj_render_result_def sj_connection_event_def sj_timer_fires_def
  sj_pair_path_def sj_qr_path_def sj_delay_ms_def sj_qr_timeout_ms_def logged_out_def
  sj_pair_connection_handler_def sj_qr_listener_def

section \<open>Answered and rejected requests never change\<close>

fun sj_is_final :: "sj_req \<Rightarrow> bool" where
  "sj_is_final (SjDone _) = True"
| "sj_is_final SjRejected = True"
| "sj_is_final _ = False"

definition sj_keeps_final :: "sj_server \<Rightarrow> sj_server \<Rightarrow> bool" where
  "sj_keeps_final s s' \<longleftrightarrow> length (sj_requests s) \<le> length (sj_requests s') \<and>
     list_all (\<lambda>r. sj_is_final (sj_requests s ! r) \<longrightarrow> sj_requests s' ! r = sj_requests s ! r)
       [0..<length (sj_requests s)]"

lemma sj_keeps_final_iff:
  "sj_keeps_final s s' \<longleftrightarrow> length (sj_requests s) \<le> length (sj_requests s') \<and>
     (\<forall>r<length (sj_requests s). sj_is_final (sj_requests s ! r) \<longrightarrow> sj_requests s' ! r = sj_requests s ! r)"
  by (auto simp: sj_keeps_final_def list_all_iff)

lemma sj_keeps_final_refl [intro]: "sj_keeps_final s s"
  by (simp add: sj_keeps_final_iff)

lemma sj_keeps_final_trans [trans]:
  "sj_keeps_final s1 s2 \<Longrightarrow> sj_keeps_final s2 s3 \<Longrightarrow> sj_keeps_final s1 s3"
  by (fastforce simp: sj_keeps_final_iff)

lemma sj_keeps_final_same: "sj_requests s' = sj_requests s \<Longrightarrow> sj_keeps_final s s'"
  by (simp add: sj_keeps_final_iff)

lemma sj_keeps_final_set_request:
  "\<not> sj_is_final (sj_requests s ! r) \<Longrightarrow> sj_keeps_final s (sj_set_request r st s)"
  by (auto simp: sj_keeps_final_iff sj_set_request_def) (metis nth_list_update_neq)

lemma sj_keeps_final_new_request: "sj_keeps_final s (sj_new_request st s)"
  by (simp add: sj_keeps_final_iff sj_new_request_def nth_append)

text \<open>Only the handlers' own continuations touch the request table.\<close>

lemma sj_requests_call [simp]: "sj_requests (sj_call u l s) = sj_requests s"
  by (cases l) (simp_all add: sj_clear_timeout_def sj_remove_dir_def sj_pair_connection_handler_def
      sj_qr_listener_def)

lemma sj_requests_emit [simp]: "sj_requests (ev_emit (sj_call u) ls s) = sj_requests s"
  by (induction ls arbitrary: s) simp_all

lemma sj_requests_effects [simp]:
  "sj_requests (sj_clear_timeout t s) = sj_requests s"
  "sj_requests (sj_remove_dir p s) = sj_requests s"
  "sj_requests (sj_end k u s) = sj_requests s"
  by (simp_all add: sj_clear_timeout_def sj_remove_dir_def sj_end_def sj_end_emit_def Let_def)

lemma sj_keeps_final_settle_qr: "sj_keeps_final s (sj_settle_qr r v s)"
  by (auto simp: sj_settle_qr_def intro: sj_keeps_final_set_request split: sj_req.split)

lemma sj_keeps_final_resume: "sj_keeps_final s (sj_resume r s)"
  by (auto simp: sj_resume_def intro: sj_keeps_final_set_request split: sj_req.split sum.split)

lemma sj_keeps_final_fold_resume: "sj_keeps_final s (fold sj_resume rs s)"
proof (induction rs arbitrary: s)
  case (Cons r rs)
  have "sj_keeps_final s (sj_resume r s)" by (rule sj_keeps_final_resume)
  also have "sj_keeps_final (sj_resume r s) (fold sj_resume rs (sj_resume r s))" by (rule Cons.IH)
  finally show ?case by simp
qed (simp add: sj_keeps_final_refl)

lemma sj_keeps_final_microtasks: "sj_keeps_final s (sj_run_microtasks s)"
  unfolding sj_run_microtasks_def by (rule sj_keeps_final_fold_resume)

text \<open>A step that only emits, ends, clears or removes, then drains the microtasks.\<close>

lemma sj_keeps_final_then_microtasks:
  "sj_requests s' = sj_requests s \<Longrightarrow> sj_keeps_final s (sj_run_microtasks s')"
  using sj_keeps_final_trans [OF sj_keeps_final_same sj_keeps_final_microtasks] by blast

lemma sj_requests_pair_ready:
  "sj_requests (sj_pair_ready r num s) = (sj_requests s)[r := SjPairDelay num (length (sj_sockets s))]"
  by (simp add: sj_pair_ready_def sj_new_socket_def sj_add_listener_def sj_set_timeout_def
      sj_set_request_def Let_def)

lemma sj_requests_qr_ready:
  "sj_requests (sj_qr_ready r s) = (sj_requests s)[r := SjQrWaiting (length (sj_sockets s)) (length (sj_timers s))]"
  by (simp add: sj_qr_ready_def sj_new_socket_def sj_add_listener_def sj_set_timeout_def
      sj_set_request_def Let_def)

lemma sj_keeps_final_update:
  "\<not> sj_is_final (sj_requests s ! r) \<Longrightarrow> sj_requests s' = (sj_requests s)[r := st] \<Longrightarrow> sj_keeps_final s s'"
  using sj_keeps_final_set_request [of s r st] by (simp add: sj_keeps_final_iff sj_set_request_def)

lemma sj_keeps_final_ready:
  "\<not> sj_is_final (sj_requests s ! r) \<Longrightarrow> sj_keeps_final s (sj_pair_ready r num s)"
  "\<not> sj_is_final (sj_requests s ! r) \<Longrightarrow> sj_keeps_final s (sj_qr_ready r s)"
  by (rule sj_keeps_final_update, assumption, rule sj_requests_pair_ready)
     (rule sj_keeps_final_update, assumption, rule sj_requests_qr_ready)

lemma sj_keeps_final_auth_ready:
  "sj_auth_ready r ok s = Some s' \<Longrightarrow> sj_keeps_final s s'"
  by (auto simp: sj_auth_ready_def intro: sj_keeps_final_ready sj_keeps_final_set_request
      split: if_splits sj_req.splits)

lemma sj_keeps_final_pairing_code_result:
  "sj_pairing_code_result r res s = Some s' \<Longrightarrow> sj_keeps_final s s'"
  by (auto simp: sj_pairing_code_result_def intro: sj_keeps_final_set_request
      split: if_splits sj_req.splits sum.splits)

lemma sj_keeps_final_timer_callback: "sj_keeps_final s (sj_run_timer_callback cb s)"
proof (cases cb)
  case (SjDelayCb r)
  then show ?thesis
    by (auto intro: sj_keeps_final_set_request split: sj_req.split)
next
  case (SjQrTimeoutCb r k)
  have "sj_keeps_final s (sj_end k sj_close_update s)" by (simp add: sj_keeps_final_same)
  also have "sj_keeps_final (sj_end k sj_close_update s) (sj_settle_qr r (Inl QrTimeout) (sj_end k sj_close_update s))"
    by (rule sj_keeps_final_settle_qr)
  finally show ?thesis using SjQrTimeoutCb by simp
qed

lemma sj_keeps_final_timer_fires: "sj_timer_fires t s = Some s' \<Longrightarrow> sj_keeps_final s s'"
proof -
  assume ev: "sj_timer_fires t s = Some s'"
  then obtain tm :: sj_timer where s': "s' = sj_run_microtasks (sj_run_timer_callback (sj_callback tm) (sj_clear_timeout t s))"
    by (auto simp: sj_timer_fires_def split: if_splits option.splits)
  have "sj_keeps_final s (sj_clear_timeout t s)" by (simp add: sj_keeps_final_same)
  also have "sj_keeps_final (sj_clear_timeout t s) (sj_run_timer_callback (sj_callback tm) (sj_clear_timeout t s))"
    by (rule sj_keeps_final_timer_callback)
  also have "sj_keeps_final \<dots> s'" unfolding s' by (rule sj_keeps_final_microtasks)
  finally show ?thesis .
qed

lemma sj_keeps_final_connection_event: "sj_connection_event k u s = Some s' \<Longrightarrow> sj_keeps_final s s'"
  by (auto simp: sj_connection_event_def intro: sj_keeps_final_then_microtasks split: if_splits)

lemma sj_keeps_final_render_result: "sj_render_result j res s = Some s' \<Longrightarrow> sj_keeps_final s s'"
proof -
  assume ev: "sj_render_result j res s = Some s'"
  then obtain job where job: "sj_renders s ! j = Some job"
    by (auto simp: sj_render_result_def split: if_splits option.splits)
  let ?s1 = "s\<lparr>sj_renders := (sj_renders s)[j := None]\<rparr>"
  show ?thesis
  proof (cases res)
    case (Inl e)
    with ev job show ?thesis by (auto simp: sj_render_result_def sj_keeps_final_same split: if_splits)
  next
    case (Inr url)
    let ?s2 = "sj_settle_qr (render_req job) (Inr url) ?s1"
    let ?s3 = "sj_end (render_sock job) sj_close_update ?s2"
    have "sj_keeps_final s ?s1" by (simp add: sj_keeps_final_same)
    also have "sj_keeps_final ?s1 ?s2" by (rule sj_keeps_final_settle_qr)
    also have "sj_keeps_final ?s2 (sj_run_microtasks (if render_close job then sj_remove_dir sj_qr_path ?s3 else ?s3))"
      by (rule sj_keeps_final_then_microtasks) simp
    finally show ?thesis using ev job Inr by (auto simp: sj_render_result_def Let_def split: if_splits)
  qed
qed

lemma sj_keeps_final_step: "sj_step s a = Some s' \<Longrightarrow> sj_keeps_final s s'"
proof (cases a)
  case (SjHttpGet rt)
  moreover assume "sj_step s a = Some s'"
  ultimately show ?thesis
    by (cases rt) (auto simp: sj_pair_request_def sj_qr_request_def intro: sj_keeps_final_new_request)
qed (auto simp: sj_keeps_final_same intro: sj_keeps_final_auth_ready sj_keeps_final_connection_event
       sj_keeps_final_timer_fires sj_keeps_final_pairing_code_result sj_keeps_final_render_result)

section \<open>The microtask queue\<close>

fun sj_settled :: "sj_req \<Rightarrow> bool" where
  "sj_settled (SjQrSettled _) = True"
| "sj_settled _ = False"

text \<open>Between two steps no promise is left settled with its continuation queued.\<close>

definition sj_quiet :: "sj_server \<Rightarrow> bool" where
  "sj_quiet s \<longleftrightarrow> list_all (\<lambda>st. \<not> sj_settled st) (sj_requests s)"

lemma sj_resume_frame [simp]:
  "cred_dirs (sj_resume r s) = cred_dirs s" "sj_sockets (sj_resume r s) = sj_sockets s"
  "sj_ended (sj_resume r s) = sj_ended s" "length (sj_requests (sj_resume r s)) = length (sj_requests s)"
  by (simp_all add: sj_resume_def sj_set_request_def split: sj_req.split sum.split)

lemma sj_microtasks_frame [simp]:
  "cred_dirs (sj_run_microtasks s) = cred_dirs s" "sj_sockets (sj_run_microtasks s) = sj_sockets s"
  "sj_ended (sj_run_microtasks s) = sj_ended s"
proof -
  have "cred_dirs (fold sj_resume rs s) = cred_dirs s \<and> sj_sockets (fold sj_resume rs s) = sj_sockets s \<and>
      sj_ended (fold sj_resume rs s) = sj_ended s" for rs
    by (induction rs arbitrary: s) simp_all
  then show "cred_dirs (sj_run_microtasks s) = cred_dirs s" "sj_sockets (sj_run_microtasks s) = sj_sockets s"
    "sj_ended (sj_run_microtasks s) = sj_ended s"
    by (simp_all add: sj_run_microtasks_def)
qed

lemma length_fold_resume: "length (sj_requests (fold sj_resume rs s)) = length (sj_requests s)"
  by (induction rs arbitrary: s) simp_all

lemma sj_resume_unsettled: "\<not> sj_settled (sj_requests s ! r) \<Longrightarrow> sj_resume r s = s"
  by (cases "sj_requests s ! r") (simp_all add: sj_resume_def)

lemma sj_requests_resume_other:
  "j \<noteq> r \<Longrightarrow> sj_requests (sj_resume r s) ! j = sj_requests s ! j"
  by (simp add: sj_resume_def sj_set_request_def split: sj_req.split sum.split)

lemma sj_resume_unsettles:
  "r < length (sj_requests s) \<Longrightarrow> \<not> sj_settled (sj_requests (sj_resume r s) ! r)"
  by (cases "sj_requests s ! r") (auto simp: sj_resume_def sj_set_request_def split: sum.split)

text \<open>The drain leaves every request it visits unsettled, and the others as they were.\<close>

lemma sj_fold_resume_drains:
  "(\<forall>j\<in>set rs. j < length (sj_requests s) \<longrightarrow> \<not> sj_settled (sj_requests (fold sj_resume rs s) ! j)) \<and>
   (\<forall>j. j \<notin> set rs \<longrightarrow> sj_requests (fold sj_resume rs s) ! j = sj_requests s ! j)"
proof (induction rs arbitrary: s)
  case (Cons x rs)
  have x: "x < length (sj_requests s) \<Longrightarrow> \<not> sj_settled (sj_requests (sj_resume x s) ! x)"
    by (rule sj_resume_unsettles)
  have other: "sj_requests (sj_resume x s) ! j = sj_requests s ! j" if "j \<noteq> x" for j
    using that by (rule sj_requests_resume_other)
  from Cons.IH [of "sj_resume x s"] x other show ?case by auto
qed simp

lemma sj_quiet_microtasks: "sj_quiet (sj_run_microtasks s)"
  using sj_fold_resume_drains [of "[0..<length (sj_requests s)]" s]
  unfolding sj_quiet_def sj_run_microtasks_def list_all_length
  by (simp add: length_fold_resume)

lemma sj_quiet_update:
  "sj_quiet s \<Longrightarrow> \<not> sj_settled st \<Longrightarrow> sj_requests s' = (sj_requests s)[r := st] \<Longrightarrow> sj_quiet s'"
  unfolding sj_quiet_def list_all_iff by (metis insert_iff set_update_subset_insert subsetD)

lemma sj_quiet_step: "sj_quiet s \<Longrightarrow> sj_step s a = Some s' \<Longrightarrow> sj_quiet s'"
proof (induction s a rule: sj_step.induct)
  case (3 s r ok)
  then show ?case
    by (auto simp: sj_auth_ready_def sj_set_request_def sj_requests_pair_ready sj_requests_qr_ready
        elim!: sj_quiet_update split: if_splits sj_req.splits)
next
  case (7 s r res)
  then show ?case
    by (auto simp: sj_pairing_code_result_def sj_set_request_def elim!: sj_quiet_update
        split: if_splits sj_req.splits sum.splits)
next
  case (4 s k u)
  then show ?case by (auto simp: sj_connection_event_def sj_quiet_microtasks split: if_splits)
next
  case (6 s t)
  then show ?case by (auto simp: sj_timer_fires_def sj_quiet_microtasks split: if_splits option.splits)
next
  case (8 s j res)
  then show ?case
    by (auto simp: sj_render_result_def Let_def sj_quiet_microtasks [unfolded sj_quiet_def] sj_quiet_def
        split: if_splits option.splits sum.splits)
qed (auto simp: sj_pair_request_def sj_qr_request_def sj_new_request_def sj_quiet_def)

lemma sj_reachable_quiet: "sj_reachable s \<Longrightarrow> sj_quiet s"
proof (induction rule: sj_reachable.induct)
  case init
  then show ?case by (simp add: sj_quiet_def sj_init_def)
next
  case (step s a s')
  then show ?case by (blast intro: sj_quiet_step)
qed

text \<open>One promise settled in a quiet state: the drain runs exactly its continuation.\<close>

lemma sj_run_microtasks_after:
  assumes quiet: "sj_quiet s0" and r: "r < length (sj_requests s0)"
    and s: "sj_requests s = (sj_requests s0)[r := st]"
  shows "sj_run_microtasks s = sj_resume r s"
proof -
  let ?n = "length (sj_requests s)"
  have other: "\<not> sj_settled (sj_requests s ! i)" if "i < ?n" "i \<noteq> r" for i
    using that quiet s by (simp add: sj_quiet_def list_all_length)
  have unsettled_fold: "fold sj_resume is s' = s'"
    if "list_all (\<lambda>i. \<not> sj_settled (sj_requests s' ! i)) is" for "is" s'
    using that by (induction "is") (simp_all add: sj_resume_unsettled)
  have "[0..<?n] = [0..<r] @ [r..<?n]"
    using upt_add_eq_append [of 0 r "?n - r"] r s by simp
  then have split: "[0..<?n] = [0..<r] @ r # [Suc r..<?n]"
    using r s by (simp add: upt_conv_Cons)
  have "fold sj_resume [0..<r] s = s"
    by (rule unsettled_fold) (use r s other in \<open>auto simp: list_all_iff\<close>)
  moreover have "fold sj_resume [Suc r..<?n] (sj_resume r s) = sj_resume r s"
    by (rule unsettled_fold) (use other in \<open>auto simp: list_all_iff sj_requests_resume_other\<close>)
  ultimately show ?thesis by (simp add: sj_run_microtasks_def split)
qed

lemma sj_run_init_quiet: "sj_run sj_init as = Some s \<Longrightarrow> sj_quiet s"
proof -
  have "sj_reachable s'" if "sj_reachable s0" "sj_run s0 as = Some s'" for s0 s'
    using that by (induction s0 as rule: sj_run.induct) (auto intro: sj_reachable.step split: option.splits)
  then show "sj_run sj_init as = Some s \<Longrightarrow> sj_quiet s"
    using sj_reachable.init sj_reachable_quiet by blast
qed

lemmas sj_witness_defs = sj_defs Let_def

text \<open>Concrete states the witnesses start from.\<close>

lemma sj_pair_example:
  fixes s defines "s \<equiv> the (sj_run sj_init [SjHttpGet (GetPair (QString (js_str ''62812''))), SjAuthReady 0 True])"
  shows "sj_sockets s = [[(CredsUpdate, SjSaveCreds),
            (ConnectionUpdate, SjPairConnection (js_str ''62812'') (sj_pair_path (js_str ''62812'')))]]"
    "sj_ended s = [False]" "cred_dirs s = {js_str ''auth_info_62812''}"
    "sj_requests s = [SjPairDelay (js_str ''62812'') 0]"
  by (simp_all add: s_def sj_witness_defs)

lemma sj_qr_example:
  fixes s defines "s \<equiv> the (sj_run sj_init [SjHttpGet GetQr, SjAuthReady 0 True])"
  shows "sj_sockets s = [[(CredsUpdate, SjSaveCreds), (ConnectionUpdate, SjQrConnection 0 0 0)]]"
    "sj_ended s = [False]" "cred_dirs s = {sj_qr_path}" "sj_requests s = [SjQrWaiting 0 0]"
  by (simp_all add: s_def sj_witness_defs)

lemma sj_qr_rendering_example:
  fixes s defines "s \<equiv> the (sj_run sj_init [SjHttpGet GetQr, SjAuthReady 0 True,
     SjConnectionEvent 0 \<lparr>connection = None, status_code = None, qr = Some (js_str ''2@AbC'')\<rparr>])"
  shows "sj_quiet s" "sj_sockets s = [[(CredsUpdate, SjSaveCreds), (ConnectionUpdate, SjQrConnection 0 0 0)]]"
    "sj_ended s = [False]" "sj_requests s = [SjQrWaiting 0 0]"
    "sj_renders s = [Some \<lparr>render_req = 0, render_sock = 0, render_close = False\<rparr>]"
proof -
  have "sj_run sj_init [SjHttpGet GetQr, SjAuthReady 0 True,
     SjConnectionEvent 0 \<lparr>connection = None, status_code = None, qr = Some (js_str ''2@AbC'')\<rparr>] = Some s"
    by (simp add: s_def sj_witness_defs)
  then show "sj_quiet s" by (rule sj_run_init_quiet)
qed (simp_all add: s_def sj_witness_defs)

section \<open>Properties of \<open>server.js\<close>\<close>

text \<open>
  C12: Response finality of \<open>server.js\<close>.  Whatever the environment does next, a
  request that has been answered keeps its response, and a request whose handler
  was rejected before its \<open>try\<close> (\<open>useMultiFileAuthState\<close> failing) stays
  unanswered for ever: no later step answers it.
\<close>

theorem sj_response_final:
  assumes "sj_step s a = Some s'" "r < length (sj_requests s)" "sj_is_final (sj_requests s ! r)"
  shows "sj_requests s' ! r = sj_requests s ! r"
  using sj_keeps_final_step [OF assms(1)] assms(2,3) by (simp add: sj_keeps_final_iff)

theorem sj_response_final_witness:
  "let s = the (sj_run sj_init [SjHttpGet (GetPair (QString (js_str ''62812''))), SjAuthReady 0 False])
   in sj_step s (SjHttpGet GetQr) = Some (sj_qr_request s) \<and> sj_requests (sj_qr_request s) ! 0 = SjRejected"
proof -
  define s where "s = the (sj_run sj_init [SjHttpGet (GetPair (QString (js_str ''62812''))), SjAuthReady 0 False])"
  have r: "sj_requests s = [SjRejected]" by (simp add: s_def sj_witness_defs)
  have "sj_requests (sj_qr_request s) ! 0 = sj_requests s ! 0"
    by (rule sj_response_final [of s "SjHttpGet GetQr"]) (simp_all add: r)
  then show ?thesis unfolding Let_def s_def [symmetric] by (simp add: r)
qed

text \<open>
  C9: Log-out clean-up of \<open>/pair\<close> in \<open>server.js\<close>.  A close of a \<open>/pair\<close>
  socket removes the credential directory \<open>auth_info_<number>\<close> exactly when its
  status code is \<open>DisconnectReason.loggedOut\<close> (401); any other close leaves the
  credentials on disk.
\<close>

theorem sj_pair_close_credentials:
  assumes "k < length (sj_sockets s)" "\<not> sj_ended s ! k"
    and "sj_sockets s ! k = [(CredsUpdate, SjSaveCreds), (ConnectionUpdate, SjPairConnection num (sj_pair_path num))]"
    and "connection u = Some Close"
  shows "\<exists>s'. sj_step s (SjConnectionEvent k u) = Some s' \<and>
    cred_dirs s' = (if status_code u = Some logged_out then cred_dirs s - {sj_pair_path num} else cred_dirs s)"
  using assms by (simp add: sj_connection_event_def sj_end_def sj_end_emit_def sj_remove_dir_def
      sj_pair_connection_handler_def sj_qr_listener_def)

theorem sj_pair_close_credentials_witness:
  "\<exists>s'. sj_step (the (sj_run sj_init [SjHttpGet (GetPair (QString (js_str ''62812''))), SjAuthReady 0 True]))
     (SjConnectionEvent 0 \<lparr>connection = Some Close, status_code = Some 401, qr = None\<rparr>) = Some s' \<and>
     cred_dirs s' = {}"
proof -
  define s where "s = the (sj_run sj_init [SjHttpGet (GetPair (QString (js_str ''62812''))), SjAuthReady 0 True])"
  note ex = sj_pair_example [folded s_def]
  have "\<exists>s'. sj_step s (SjConnectionEvent 0 \<lparr>connection = Some Close, status_code = Some 401, qr = None\<rparr>) = Some s' \<and>
    cred_dirs s' = (if status_code \<lparr>connection = Some Close, status_code = Some 401, qr = None\<rparr> = Some logged_out
                    then cred_dirs s - {sj_pair_path (js_str ''62812'')} else cred_dirs s)"
    by (rule sj_pair_close_credentials) (simp_all add: ex)
  then show ?thesis unfolding s_def [symmetric] by (simp add: ex logged_out_def sj_pair_path_def)
qed

text \<open>
  C10: The \<open>/qr\<close> listener of \<open>server.js\<close> removes \<open>auth_info_qr\<close> on every close,
  whatever its status code: a restart-required or network close deletes the
  credentials just as a log-out would, against the spec's "non-logout close must
  leave them intact".
\<close>

theorem sj_qr_close_credentials:
  assumes "k < length (sj_sockets s)" "\<not> sj_ended s ! k"
    and "sj_sockets s ! k = [(CredsUpdate, SjSaveCreds), (ConnectionUpdate, SjQrConnection r k t)]"
    and "connection u = Some Close" "\<not> js_truthy (qr u)"
  shows "\<exists>s'. sj_step s (SjConnectionEvent k u) = Some s' \<and> cred_dirs s' = cred_dirs s - {sj_qr_path}"
  using assms by (simp add: sj_connection_event_def sj_end_def sj_end_emit_def sj_remove_dir_def
      sj_pair_connection_handler_def sj_qr_listener_def)

theorem sj_qr_close_credentials_witness:
  "\<exists>s'. sj_step (the (sj_run sj_init [SjHttpGet GetQr, SjAuthReady 0 True]))
     (SjConnectionEvent 0 \<lparr>connection = Some Close, status_code = Some 515, qr = None\<rparr>) = Some s' \<and>
     cred_dirs s' = {}"
proof -
  define s where "s = the (sj_run sj_init [SjHttpGet GetQr, SjAuthReady 0 True])"
  note ex = sj_qr_example [folded s_def]
  have "\<exists>s'. sj_step s (SjConnectionEvent 0 \<lparr>connection = Some Close, status_code = Some 515, qr = None\<rparr>) = Some s' \<and>
    cred_dirs s' = cred_dirs s - {sj_qr_path}"
    by (rule sj_qr_close_credentials [where r = 0 and t = 0]) (simp_all add: ex)
  then show ?thesis unfolding s_def [symmetric] by (simp add: ex)
qed

text \<open>
  C4: A successful QR rendering ends the session it was meant to log in.  When
  \<open>qrcode.toDataURL\<close> resolves in the \<open>/qr\<close> listener, the request is answered
  200 with the image, but the same listener then calls \<open>sock.end()\<close>: the socket
  is closed and the close it emits reaches the listener itself, which removes
  \<open>auth_info_qr\<close>.  The QR code sent to the browser can no longer link a device.
\<close>

theorem sj_qr_render_ends_session:
  assumes quiet: "sj_quiet s"
    and j: "j < length (sj_renders s)" "sj_renders s ! j = Some \<lparr>render_req = r, render_sock = k, render_close = c\<rparr>"
    and r: "r < length (sj_requests s)" "sj_requests s ! r = SjQrWaiting k t"
    and k: "k < length (sj_sockets s)" "k < length (sj_ended s)" "\<not> sj_ended s ! k"
    and ls: "sj_sockets s ! k = [(CredsUpdate, SjSaveCreds), (ConnectionUpdate, SjQrConnection r k t)]"
  shows "\<exists>s'. sj_step s (SjQrRenderResult j (Inr url)) = Some s' \<and>
    sj_requests s' ! r = SjDone (SjResponse 200 (SjQrBody url)) \<and> sj_ended s' ! k \<and> sj_qr_path \<notin> cred_dirs s'"
proof -
  let ?s1 = "s\<lparr>sj_renders := (sj_renders s)[j := None]\<rparr>"
  let ?s2 = "sj_settle_qr r (Inr url) ?s1"
  let ?s3 = "sj_end k sj_close_update ?s2"
  define x where "x = (if c then sj_remove_dir sj_qr_path ?s3 else ?s3)"
  have step: "sj_step s (SjQrRenderResult j (Inr url)) = Some (sj_run_microtasks x)"
    using j by (simp add: sj_render_result_def x_def)
  have req: "sj_requests x = (sj_requests s)[r := SjQrSettled (Inr url)]"
    using r by (simp add: x_def sj_settle_qr_def sj_set_request_def)
  have mt: "sj_run_microtasks x = sj_resume r x"
    by (rule sj_run_microtasks_after [OF quiet r(1) req])
  have "sj_requests (sj_resume r x) ! r = SjDone (SjResponse 200 (SjQrBody url))"
    using r(1) req by (simp add: sj_resume_def sj_set_request_def)
  moreover have "sj_ended x ! k" "sj_qr_path \<notin> cred_dirs x"
    using k ls by (simp_all add: x_def sj_settle_qr_def sj_set_request_def sj_end_def sj_end_emit_def
        sj_qr_listener_def
        sj_close_update_def sj_remove_dir_def split: sj_req.split)
  ultimately show ?thesis using step mt by simp
qed

theorem sj_qr_render_ends_session_witness:
  "\<exists>s'. sj_step (the (sj_run sj_init [SjHttpGet GetQr, SjAuthReady 0 True,
       SjConnectionEvent 0 \<lparr>connection = None, status_code = None, qr = Some (js_str ''2@AbC'')\<rparr>]))
     (SjQrRenderResult 0 (Inr (js_str ''data:image/png''))) = Some s' \<and>
     sj_requests s' ! 0 = SjDone (SjResponse 200 (SjQrBody (js_str ''data:image/png''))) \<and>
     sj_ended s' ! 0 \<and> sj_qr_path \<notin> cred_dirs s'"
proof -
  define s where "s = the (sj_run sj_init [SjHttpGet GetQr, SjAuthReady 0 True,
       SjConnectionEvent 0 \<lparr>connection = None, status_code = None, qr = Some (js_str ''2@AbC'')\<rparr>])"
  note ex = sj_qr_rendering_example [folded s_def]
  show ?thesis unfolding s_def [symmetric]
    by (rule sj_qr_render_ends_session [OF ex(1), where c = False and t = 0]) (simp_all add: ex)
qed

text \<open>
  C17: \<open>server.js\<close> sends the pairing code as the library returns it: the code
  is not grouped by four with hyphens as the spec (and \<open>index.js\<close>) format it.
\<close>

theorem sj_pairing_code_raw:
  assumes "r < length (sj_requests s)" "sj_requests s ! r = SjPairRequesting num k"
  shows "sj_step s (SjPairingCodeResult r (Inr code)) =
    Some (s\<lparr>sj_requests := (sj_requests s)[r := SjDone (SjResponse 200 (SjCodeBody code))]\<rparr>)"
  using assms by (simp add: sj_pairing_code_result_def sj_set_request_def)

theorem sj_pairing_code_raw_witness:
  "let s = the (sj_run sj_init [SjHttpGet (GetPair (QString (js_str ''62812''))), SjAuthReady 0 True,
       SjTimePasses 2000, SjTimerFires 0])
   in sj_step s (SjPairingCodeResult 0 (Inr (js_str ''ABCD1234''))) =
        Some (s\<lparr>sj_requests := [SjDone (SjResponse 200 (SjCodeBody (js_str ''ABCD1234'')))]\<rparr>) \<and>
      format_pairing_code (Some (js_str ''ABCD1234'')) = Some (js_str ''ABCD-1234'')"
proof -
  define s where "s = the (sj_run sj_init [SjHttpGet (GetPair (QString (js_str ''62812''))), SjAuthReady 0 True,
       SjTimePasses 2000, SjTimerFires 0])"
  have r: "sj_requests s = [SjPairRequesting (js_str ''62812'') 0]" by (simp add: s_def sj_witness_defs)
  have "sj_step s (SjPairingCodeResult 0 (Inr (js_str ''ABCD1234''))) =
      Some (s\<lparr>sj_requests := (sj_requests s)[0 := SjDone (SjResponse 200 (SjCodeBody (js_str ''ABCD1234'')))]\<rparr>)"
    by (rule sj_pairing_code_raw) (simp_all add: r)
  moreover have "format_pairing_code (Some (js_str ''ABCD1234'')) = Some (js_str ''ABCD-1234'')"
    by (simp add: format_pairing_code_def js_match_any_1_4_def is_line_terminator_def hyphen_def)
  ultimately show ?thesis unfolding Let_def s_def [symmetric] by (simp add: r)
qed

text \<open>
  C14: \<open>server.js\<close> keeps no session registry and never rejects a duplicate.
  From any state, even one where a socket for the same number is live and
  \<open>auth_info_<number>\<close> exists, a \<open>/pair\<close> request with a non-empty number
  loads the credential store and opens a new socket over the same directory.
  The spec rejects it as \<open>DuplicateSession\<close>.
\<close>

theorem sj_pair_no_duplicate_check:
  "\<exists>s'. sj_run s [SjHttpGet (GetPair (QString (c # cs))), SjAuthReady (length (sj_requests s)) True] = Some s' \<and>
     sj_requests s' ! length (sj_requests s) = SjPairDelay (c # cs) (length (sj_sockets s)) \<and>
     sj_sockets s' ! length (sj_sockets s) =
       [(CredsUpdate, SjSaveCreds), (ConnectionUpdate, SjPairConnection (c # cs) (sj_pair_path (c # cs)))] \<and>
     sj_pair_path (c # cs) \<in> cred_dirs s'"
  by (simp add: sj_pair_request_def sj_new_request_def sj_auth_ready_def sj_pair_ready_def sj_new_socket_def
      sj_add_listener_def sj_set_timeout_def sj_set_request_def Let_def nth_append)

text \<open>
  C19: What \<open>GET /pair\<close> of \<open>server.js\<close> does with each shape of
  \<open>req.query.number\<close>.  An absent or empty number is answered 400 at once and
  creates nothing.  A non-empty string goes on to load \<open>auth_info_<number>\<close>
  unchanged, without stripping non-digits.  An array (the key repeated) is truthy
  and goes on with the comma-joined string as its number.
\<close>

theorem sj_pair_query_cases:
  "sj_step s (SjHttpGet (GetPair QAbsent)) =
     Some (s\<lparr>sj_requests := sj_requests s @ [SjDone (SjResponse 400 SjErrNumberRequired)]\<rparr>) \<and>
   sj_step s (SjHttpGet (GetPair (QString []))) =
     Some (s\<lparr>sj_requests := sj_requests s @ [SjDone (SjResponse 400 SjErrNumberRequired)]\<rparr>) \<and>
   sj_step s (SjHttpGet (GetPair (QString (c # cs)))) =
     Some (s\<lparr>sj_requests := sj_requests s @ [SjPairLoading (c # cs)]\<rparr>) \<and>
   sj_step s (SjHttpGet (GetPair (QArray ns))) =
     Some (s\<lparr>sj_requests := sj_requests s @ [SjPairLoading (js_join_comma ns)]\<rparr>)"
  by (simp add: sj_pair_request_def sj_new_request_def)

end
