(* ===== verification/Spec2Isabelle.thy ===== *)
theory Spec2Isabelle
  imports IndexInvariant ServerJs
begin

text \<open>
  \<^bold>\<open>A verification model of SessionWarriors.\<close>

  The repository is two small Express servers that hand a browser a WhatsApp
  pairing code or a QR image, delegating the protocol to the Baileys client
  library.  \<open>src/index.js\<close> keeps a module-level map \<open>activeSessions\<close> from a
  session id to its socket and coordinates, per request, a race between socket
  events and a timeout; \<open>src/server.js\<close> is a variant without the map.

  \<^bold>\<open>Theories.\<close>
  \<^item> \<open>Prelude\<close>: JavaScript strings as lists of UTF-16 code units (\<open>16 word\<close>),
    \<open>null\<close>/\<open>undefined\<close> as \<open>option\<close>, truthiness, shared list lemmas.
  \<^item> \<open>PairingCode\<close>: the session id \<open>phoneNumber.replace(/[^0-9]/g, '')\<close> and the
    display form \<open>pairingCode?.match(/.{1,4}/g)?.join('-') || pairingCode\<close>
    (index.js lines 96 and 131), with the regular expression's real semantics
    (\<open>.\<close> skips the four line terminators).  Its lemmas: the scan equals the
    reference grouping \<open>chunks4\<close> on codes without line terminators, the chunks
    cover the input, the hyphenated code decodes back, its length, the fallbacks.
  \<^item> \<open>Emitter\<close>: the Node.js \<open>EventEmitter\<close> behind \<open>sock.ev\<close> (library code,
    modelled from Node's documented behaviour): ordered listeners, \<open>on\<close>,
    \<open>removeAllListeners(name)\<close>, and \<open>emit\<close> over a copy of the listener array.
  \<^item> \<open>IndexServer\<close>: \<open>src/index.js\<close> as a state machine.  The state record
    \<open>server\<close> holds \<open>activeSessions\<close>, each socket's listener list, the pending
    timers, where each request handler is suspended (\<open>req_state\<close>) and the clock.
    One definition per handler and closure of the source (\<open>pair_request\<close>,
    \<open>create_whatsapp_session\<close>, \<open>pair_session_ready\<close>, \<open>pair_connection_wait\<close>,
    \<open>pair_timeout_callback\<close>, \<open>resume_pair\<close>, \<open>pairing_code_result\<close>, and the QR
    counterparts); \<open>step\<close> applies one action of the environment (an HTTP
    request, a library await settling, a socket event, time passing, a due timer)
    and then the promise continuations it queued.  The interleaving of concurrent
    requests is the order of the actions.
  \<^item> \<open>IndexResponses\<close>: every step keeps each answered or stuck request as it is
    (one preservation lemma per effect and per step kind).
  \<^item> \<open>IndexInvariant\<close>: the invariant \<open>server_inv\<close> of \<open>index.js\<close>.  Each waiting
    request owns one socket (the three listeners of \<open>createWhatsAppSession\<close> plus
    its own wait) and one pending timer that names it.  Every other socket has no
    \<open>connection.update\<close> listener left.  No settled promise waits for its
    continuation between steps.  The invariant holds in every reachable state
    (rule induction over \<open>reachable\<close>, with frame lemmas for the four shapes of
    change the handlers make).  Under it, each event on a waiting request has a
    closed form, which gives the races of the spec: \<open>open\<close> before the timer,
    \<open>close\<close>, the timeout (every waiting request is answered once time passes),
    the QR string and the rendered QR.
  \<^item> \<open>ServerJs\<close>: \<open>src/server.js\<close> as a second state machine (\<open>sj_server\<close>).
    Its state holds the credential directories on disk, the sockets with their
    ended flag, the timers, the QR renderings suspended inside a listener and the
    request handlers.  The library's \<open>sock.end\<close> is modelled from Baileys'
    documented behaviour (\<open>sj_end_emit\<close>).  Its lemmas show that answered and
    rejected requests never change and that no settled promise is left queued.
    They also cover how closes treat the credential directories of \<open>/pair\<close>
    and \<open>/qr\<close>, that a rendered QR ends its own session, and how its responses
    differ from the spec's.
  \<^item> this theory: the properties that span both servers.  It compares their
    \<open>/pair\<close> answers: \<open>index.js\<close> formats the code, \<open>server.js\<close> sends it raw,
    and the two agree only on codes of at most four units.

  \<^bold>\<open>Modelling choices.\<close>  The two awaits inside \<open>createWhatsAppSession\<close> are one
  action (\<open>SessionCreated\<close>), since nothing of the server's state changes between
  them; \<open>creds.update\<close> and \<open>messages.upsert\<close> events only write credentials through
  the library or log, so they are not actions.  Timers fire at or after their
  deadline (\<open>TimerFires\<close> is enabled once \<open>deadline \<le> clock\<close>), as Node's timers do;
  30000 and 60000 ms are the source's constants.  Error messages of library
  exceptions are abstracted to the \<open>failure\<close> constructor that names their origin.

  \<^bold>\<open>Not modelled.\<close>  The static file route and \<open>app.listen\<close> of both
  servers (pure I/O) and the process-level error handlers of \<open>server.js\<close> (they
  only log; their effect, that a rejected handler leaves its request unanswered,
  is the \<open>SjRejected\<close> state).  The Baileys protocol, the credential store and
  \<open>qrcode\<close> are external libraries: their results are actions of the environment.
  \<open>fs.rm\<close> is asynchronous in the source; its removal is modelled as taking effect
  when it is called, since no step of the program reads the directory afterwards.

  \<^bold>\<open>Bounds.\<close>  The model has no fuel: every operation is a total, structurally
  recursive function, and a run is a finite list of actions.  Claims that
  something eventually happens, for example \<open>waiting_request_answered\<close>, state
  the finite sequence of environment actions that makes it happen.
\<close>

section \<open>Properties across the components\<close>

text \<open>
  C3: The two servers send the same pairing code only for codes of at most four
  code units.  For a request of each server waiting on \<open>requestPairingCode\<close>,
  take a code with no line terminators.  \<open>index.js\<close> answers with its
  hyphen-grouped form and \<open>server.js\<close> with the raw code, and the two bodies
  agree exactly when the code is at most four units long.  Real pairing codes
  have eight characters, so the two servers always answer differently.
\<close>

theorem pair_code_servers_agree:
  assumes "r < length (requests s)" "requests s ! r = PairRequesting sid k"
    and "r2 < length (sj_requests s2)" "sj_requests s2 ! r2 = SjPairRequesting num k2"
    and "PairingCode.lt_free code" "code \<noteq> []"
  shows "\<exists>c c2. step s (PairingCodeResult r (Inr (Some code))) =
              Some (respond r (Response 200 (CodeBody (Some c))) s) \<and>
            sj_step s2 (SjPairingCodeResult r2 (Inr code)) =
              Some (s2\<lparr>sj_requests := (sj_requests s2)[r2 := SjDone (SjResponse 200 (SjCodeBody c2))]\<rparr>) \<and>
            (c = c2 \<longleftrightarrow> length code \<le> 4)"
proof -
  have idx: "step s (PairingCodeResult r (Inr (Some code))) =
      Some (respond r (Response 200 (CodeBody (Some (js_join_hyphen (chunks4 code))))) s)"
    using assms(1,2,5,6) by (simp add: pairing_code_result_def format_pairing_code_lt_free)
  have sj: "sj_step s2 (SjPairingCodeResult r2 (Inr code)) =
      Some (s2\<lparr>sj_requests := (sj_requests s2)[r2 := SjDone (SjResponse 200 (SjCodeBody code))]\<rparr>)"
    using assms(3,4) by (simp add: sj_pairing_code_result_def sj_set_request_def)
  from idx sj join_chunks4_raw_iff [OF assms(6)] show ?thesis by blast
qed

theorem pair_code_servers_agree_witness:
  "\<exists>c c2. step (the (run init_server [HttpGet (GetPair (QString (js_str ''123''))), SessionCreated 0 True,
              ConnectionEvent 0 \<lparr>connection = Some Open, status_code = None, qr = None\<rparr>]))
            (PairingCodeResult 0 (Inr (Some (js_str ''ABCD1234'')))) =
          Some (respond 0 (Response 200 (CodeBody (Some c)))
            (the (run init_server [HttpGet (GetPair (QString (js_str ''123''))), SessionCreated 0 True,
              ConnectionEvent 0 \<lparr>connection = Some Open, status_code = None, qr = None\<rparr>]))) \<and>
        sj_step (the (sj_run sj_init [SjHttpGet (GetPair (QString (js_str ''62812''))), SjAuthReady 0 True,
              SjTimePasses 2000, SjTimerFires 0]))
            (SjPairingCodeResult 0 (Inr (js_str ''ABCD1234''))) =
          Some ((the (sj_run sj_init [SjHttpGet (GetPair (QString (js_str ''62812''))), SjAuthReady 0 True,
              SjTimePasses 2000, SjTimerFires 0]))\<lparr>sj_requests := [SjDone (SjResponse 200 (SjCodeBody c2))]\<rparr>) \<and>
        c \<noteq> c2"
proof -
  define s where "s = the (run init_server [HttpGet (GetPair (QString (js_str ''123''))), SessionCreated 0 True,
              ConnectionEvent 0 \<lparr>connection = Some Open, status_code = None, qr = None\<rparr>])"
  define s2 where "s2 = the (sj_run sj_init [SjHttpGet (GetPair (QString (js_str ''62812''))), SjAuthReady 0 True,
              SjTimePasses 2000, SjTimerFires 0])"
  have r: "requests s = [PairRequesting (js_str ''123'') 0]"
    by (simp add: s_def server_defs strip_non_digits_def is_ascii_digit_def Let_def)
  have r2: "sj_requests s2 = [SjPairRequesting (js_str ''62812'') 0]"
    by (simp add: s2_def sj_defs Let_def)
  have "\<exists>c c2. step s (PairingCodeResult 0 (Inr (Some (js_str ''ABCD1234'')))) =
              Some (respond 0 (Response 200 (CodeBody (Some c))) s) \<and>
            sj_step s2 (SjPairingCodeResult 0 (Inr (js_str ''ABCD1234''))) =
              Some (s2\<lparr>sj_requests := (sj_requests s2)[0 := SjDone (SjResponse 200 (SjCodeBody c2))]\<rparr>) \<and>
            (c = c2 \<longleftrightarrow> length (js_str ''ABCD1234'') \<le> 4)"
    by (rule pair_code_servers_agree) (simp_all add: r r2 is_line_terminator_def)
  then show ?thesis unfolding s_def [symmetric] s2_def [symmetric] by (simp add: r2)
qed

end
